theory Spec2Isabelle
  imports Main "HOL-Library.AList"
begin

section \<open>Values, exceptions and dictionaries\<close>

text \<open>
  The dispatcher of \<^verbatim>\<open>manager_internal.py\<close> works on Python values: the request is a
  \<^verbatim>\<open>dict\<close> (or a JSON string that decodes to one), results of the engine are arbitrary
  objects. Values are modelled by one datatype: the JSON values, and the two kinds of
  object the source tests for with \<^verbatim>\<open>isinstance\<close>: \<^verbatim>\<open>bytes\<close> and
  \<^verbatim>\<open>datetime.datetime\<close> (carrying the milliseconds that the date validator computes
  for it). A float is finite (mantissa and exponent) or one of the three values that
  JSON cannot express. Dictionaries have string keys and keep insertion order.
\<close>

datatype pyfloat = Finite int int | NaN | PosInf | NegInf

datatype jv =
    JNull
  | JBool bool
  | JInt int
  | JFloat pyfloat
  | JStr string
  | JBytes "nat list"
  | JDatetime int
  | JList "jv list"
  | JDict "(string \<times> jv) list"

type_synonym pydict = "(string \<times> jv) list"

text \<open>An exception is its class and the text \<^verbatim>\<open>str(e)\<close> gives.\<close>

datatype exn_kind = KeyError | IndexError | TypeError | AttributeError | ValueError
  | UnboundLocalError | JSONDecodeError | PerspectiveError | PerspectiveCppError | OtherError

datatype exn = Exn exn_kind string

fun exn_class :: "exn \<Rightarrow> exn_kind" where
  "exn_class (Exn k s) = k"

fun exn_str :: "exn \<Rightarrow> string" where
  "exn_str (Exn k s) = s"

definition quoted :: "string \<Rightarrow> string" where
  "quoted s = [CHR 0x27] @ s @ [CHR 0x27]"

text \<open>
  \<^verbatim>\<open>d[k]\<close> on a dictionary with a literal key: a missing key raises \<^verbatim>\<open>KeyError\<close>,
  whose text is the \<^verbatim>\<open>repr\<close> of the key (the key between quotes). \<^verbatim>\<open>d.get(k, default)\<close> never raises.
\<close>

definition subscript :: "pydict \<Rightarrow> string \<Rightarrow> exn + jv" where
  "subscript d k = (case map_of d k of None \<Rightarrow> Inl (Exn KeyError (quoted k)) | Some v \<Rightarrow> Inr v)"

definition dict_get :: "pydict \<Rightarrow> string \<Rightarrow> jv \<Rightarrow> jv" where
  "dict_get d k dflt = (case map_of d k of None \<Rightarrow> dflt | Some v \<Rightarrow> v)"

text \<open>Truth value testing, as \<^verbatim>\<open>if x:\<close> does it.\<close>

fun truthy :: "jv \<Rightarrow> bool" where
  "truthy JNull = False"
| "truthy (JBool b) = b"
| "truthy (JInt i) = (i \<noteq> 0)"
| "truthy (JFloat f) = (case f of Finite m e \<Rightarrow> m \<noteq> 0 | _ \<Rightarrow> True)"
| "truthy (JStr s) = (s \<noteq> [])"
| "truthy (JBytes b) = (b \<noteq> [])"
| "truthy (JDatetime t) = True"
| "truthy (JList xs) = (xs \<noteq> [])"
| "truthy (JDict kvs) = (kvs \<noteq> [])"

text \<open>
  \<^verbatim>\<open>x[i]\<close> with an integer literal, \<^verbatim>\<open>len(x)\<close>, iteration (\<^verbatim>\<open>for d in x\<close>,
  \<^verbatim>\<open>*x\<close>) and the mapping that \<^verbatim>\<open>**x\<close> needs, each with the exception that Python
  raises on a value of the wrong type.
\<close>

fun py_getitem :: "jv \<Rightarrow> nat \<Rightarrow> exn + jv" where
  "py_getitem (JList xs) i =
     (if i < length xs then Inr (xs ! i) else Inl (Exn IndexError ''list index out of range''))"
| "py_getitem (JStr s) i =
     (if i < length s then Inr (JStr [s ! i])
      else Inl (Exn IndexError ''string index out of range''))"
| "py_getitem (JBytes b) i =
     (if i < length b then Inr (JInt (int (b ! i)))
      else Inl (Exn IndexError ''index out of range''))"
| "py_getitem (JDict kvs) i = Inl (Exn KeyError (if i = 0 then ''0'' else ''1''))"
| "py_getitem v i = Inl (Exn TypeError ''object is not subscriptable'')"

fun py_len :: "jv \<Rightarrow> exn + nat" where
  "py_len (JList xs) = Inr (length xs)"
| "py_len (JStr s) = Inr (length s)"
| "py_len (JBytes b) = Inr (length b)"
| "py_len (JDict kvs) = Inr (length kvs)"
| "py_len v = Inl (Exn TypeError ''object has no len()'')"

fun py_iter :: "jv \<Rightarrow> exn + jv list" where
  "py_iter (JList xs) = Inr xs"
| "py_iter (JStr s) = Inr (map (\<lambda>c. JStr [c]) s)"
| "py_iter (JBytes b) = Inr (map (\<lambda>n. JInt (int n)) b)"
| "py_iter (JDict kvs) = Inr (map (\<lambda>kv. JStr (fst kv)) kvs)"
| "py_iter v = Inl (Exn TypeError ''object is not iterable'')"

fun py_mapping :: "jv \<Rightarrow> exn + pydict" where
  "py_mapping (JDict kvs) = Inr kvs"
| "py_mapping v = Inl (Exn TypeError ''argument after ** must be a mapping'')"

text \<open>
  \<^verbatim>\<open>args.update(d)\<close>: a dictionary is merged key by key; any other argument is read
  as a sequence of key/value pairs. A pair whose key is not a string raises here, where
  Python raises only on the later call with \<^verbatim>\<open>**args\<close>.
\<close>

fun update_pairs :: "pydict \<Rightarrow> jv list \<Rightarrow> exn + pydict" where
  "update_pairs acc [] = Inr acc"
| "update_pairs acc (p # ps) =
     (case py_iter p of
        Inl e \<Rightarrow> Inl (Exn TypeError
                 ''cannot convert dictionary update sequence element to a sequence'')
      | Inr [JStr k, v] \<Rightarrow> update_pairs (AList.update k v acc) ps
      | Inr [k, v] \<Rightarrow> Inl (Exn TypeError ''keywords must be strings'')
      | Inr other \<Rightarrow> Inl (Exn ValueError
                 ''dictionary update sequence element has the wrong length; 2 is required''))"

definition dict_update :: "pydict \<Rightarrow> jv \<Rightarrow> exn + pydict" where
  "dict_update acc d =
     (case d of
        JDict kvs \<Rightarrow> Inr (fold (\<lambda>kv a. AList.update (fst kv) (snd kv) a) kvs acc)
      | _ \<Rightarrow> (case py_iter d of Inl e \<Rightarrow> Inl e | Inr items \<Rightarrow> update_pairs acc items))"

fun update_all :: "pydict \<Rightarrow> jv list \<Rightarrow> exn + pydict" where
  "update_all acc [] = Inr acc"
| "update_all acc (d # ds) =
     (case dict_update acc d of Inl e \<Rightarrow> Inl e | Inr acc' \<Rightarrow> update_all acc' ds)"

text \<open>A key of a registry must be hashable: a list or a dictionary raises \<^verbatim>\<open>TypeError\<close>.\<close>

fun hashable :: "jv \<Rightarrow> bool" where
  "hashable (JList xs) = False"
| "hashable (JDict kvs) = False"
| "hashable v = True"

definition unhashable :: exn where
  "unhashable = Exn TypeError ''unhashable type''"

section \<open>Message codec\<close>

text \<open>
  \<^verbatim>\<open>json.dumps\<close> walks the value in order and raises at the first value it cannot
  write: \<^verbatim>\<open>ValueError\<close> for a non-finite float when \<^verbatim>\<open>allow_nan\<close> is false,
  \<^verbatim>\<open>TypeError\<close> for an object that is no JSON value. With \<^verbatim>\<open>DateTimeEncoder\<close> (the
  second flag) a datetime is written as its milliseconds. The text written is
  represented by the JSON value it denotes.
\<close>

fun sequence :: "(exn + 'a) list \<Rightarrow> exn + 'a list" where
  "sequence [] = Inr []"
| "sequence (Inl e # rs) = Inl e"
| "sequence (Inr x # rs) =
     (case sequence rs of Inl e \<Rightarrow> Inl e | Inr xs \<Rightarrow> Inr (x # xs))"

fun keyed :: "string \<times> (exn + jv) \<Rightarrow> exn + (string \<times> jv)" where
  "keyed (k, Inl e) = Inl e"
| "keyed (k, Inr v) = Inr (k, v)"

definition out_of_range :: string where
  "out_of_range = ''Out of range float values are not JSON compliant''"

primrec json_dumps :: "bool \<Rightarrow> bool \<Rightarrow> jv \<Rightarrow> exn + jv" where
  "json_dumps allow_nan dt JNull = Inr JNull"
| "json_dumps allow_nan dt (JBool b) = Inr (JBool b)"
| "json_dumps allow_nan dt (JInt i) = Inr (JInt i)"
| "json_dumps allow_nan dt (JFloat f) =
     (case f of
        Finite m e \<Rightarrow> Inr (JFloat f)
      | _ \<Rightarrow> if allow_nan then Inr (JFloat f) else Inl (Exn ValueError out_of_range))"
| "json_dumps allow_nan dt (JStr s) = Inr (JStr s)"
| "json_dumps allow_nan dt (JBytes b) =
     Inl (Exn TypeError ''Object of type bytes is not JSON serializable'')"
| "json_dumps allow_nan dt (JDatetime t) =
     (if dt then Inr (JInt t)
      else Inl (Exn TypeError ''Object of type datetime is not JSON serializable''))"
| "json_dumps allow_nan dt (JList xs) =
     (case sequence (map (json_dumps allow_nan dt) xs) of
        Inl e \<Rightarrow> Inl e | Inr ws \<Rightarrow> Inr (JList ws))"
| "json_dumps allow_nan dt (JDict kvs) =
     (case sequence (map keyed (map (map_prod id (json_dumps allow_nan dt)) kvs)) of
        Inl e \<Rightarrow> Inl e | Inr ws \<Rightarrow> Inr (JDict ws))"

definition make_message :: "jv \<Rightarrow> jv \<Rightarrow> pydict" where
  "make_message i result = [(''id'', i), (''data'', result)]"

definition make_error_message :: "jv \<Rightarrow> string \<Rightarrow> pydict" where
  "make_error_message i error = [(''id'', i), (''error'', JStr error)]"

definition nan_text :: string where
  "nan_text = ''Cannot serialize `NaN`, `Infinity` or `-Infinity` to JSON.''"

text \<open>
  \<^verbatim>\<open>_message_to_json\<close>: only \<^verbatim>\<open>ValueError\<close> is caught; the error message is then
  written with the default encoder and the default \<^verbatim>\<open>allow_nan\<close>.
\<close>

definition message_to_json :: "jv \<Rightarrow> pydict \<Rightarrow> exn + jv" where
  "message_to_json i message =
     (case json_dumps False True (JDict message) of
        Inr w \<Rightarrow> Inr w
      | Inl e \<Rightarrow>
          if exn_class e = ValueError then
            (let error_string = (if exn_str e = out_of_range then nan_text else exn_str e);
                 error_message =
                   make_error_message i (''JSON serialization error: '' @ error_string)
             in json_dumps True False (JDict error_message))
          else Inl e)"

section \<open>Engine, registries and manager state\<close>

text \<open>
  The table and view engine is an external collaborator. What the dispatcher holds of it
  are object references: a table, a view, the empty list that the \<^verbatim>\<open>table\<close> command
  registers when it gets no argument, and \<^verbatim>\<open>None\<close> for a name that
  \<^verbatim>\<open>dict.get\<close> does not find. Every call made on such an object is recorded in a
  trace, and its outcome is given by the parameter \<open>engine\<close>, which sees the calls made
  so far. A new table or view is numbered by the position of its constructing call. The
  engine hands nothing to the transport during a call: a notification that a call
  sets off is delivered later, by the callback it was given.
\<close>

datatype handle = NoneType | EmptyList | TableObj nat | ViewObj nat

text \<open>\<^verbatim>\<open>partial(self.callback, msg=msg, post_callback=post_callback)\<close>\<close>

datatype callback = Callback pydict

datatype call =
    Construct jv pydict
  | Method handle string "jv list" pydict
  | Subscribe handle string callback pydict

record runtime =
  json_loads :: "string \<Rightarrow> exn + jv"
  py_repr :: "jv \<Rightarrow> string"
  engine :: "call list \<Rightarrow> call \<Rightarrow> exn + jv"

text \<open>A frame handed to \<^verbatim>\<open>post_callback\<close>: a JSON text, or bytes with \<^verbatim>\<open>binary=True\<close>.\<close>

datatype frame = Text jv | Binary "nat list"

record callback_record =
  cb_client_id :: "string option"
  cb_callback_id :: jv
  cb_callback :: callback
  cb_name :: jv

record manager =
  lock :: bool
  tables :: "(jv \<times> handle) list"
  views :: "(jv \<times> nat \<times> string option) list"
  callback_cache :: "callback_record list"
  posted :: "frame list"
  trace :: "call list"

definition post :: "frame \<Rightarrow> manager \<Rightarrow> manager" where
  "post f st = st\<lparr>posted := posted st @ [f]\<rparr>"

definition engine_call :: "runtime \<Rightarrow> call \<Rightarrow> manager \<Rightarrow> (exn + jv) \<times> manager" where
  "engine_call rt c st = (engine rt (trace st) c, st\<lparr>trace := trace st @ [c]\<rparr>)"

text \<open>
  \<^verbatim>\<open>getattr(obj, name)\<close>: \<^verbatim>\<open>None\<close> has no attribute whose name does not begin with
  an underscore, and a list has only its eleven methods; for these the
  \<^verbatim>\<open>AttributeError\<close> is certain. Whether a table or a view has the attribute is the
  engine's answer to the call.
\<close>

definition public_name :: "string \<Rightarrow> bool" where
  "public_name m = (case m of [] \<Rightarrow> True | c # cs \<Rightarrow> c \<noteq> CHR ''_'')"

definition list_methods :: "string list" where
  "list_methods = [''append'', ''clear'', ''copy'', ''count'', ''extend'', ''index'',
     ''insert'', ''pop'', ''remove'', ''reverse'', ''sort'']"

definition no_attribute :: "string \<Rightarrow> string \<Rightarrow> exn" where
  "no_attribute cls m =
     Exn AttributeError (quoted cls @ '' object has no attribute '' @ quoted m)"

fun getattr :: "handle \<Rightarrow> string \<Rightarrow> exn + unit" where
  "getattr NoneType m =
     (if public_name m then Inl (no_attribute ''NoneType'' m) else Inr ())"
| "getattr EmptyList m =
     (if public_name m \<and> m \<notin> set list_methods then Inl (no_attribute ''list'' m)
      else Inr ())"
| "getattr h m = Inr ()"

text \<open>
  Modelled from the spec: the callback registry (\<^verbatim>\<open>self._callback_cache\<close>), whose class
  is not in this file. It "tracks live subscriptions: tuples of (client id, callback id,
  callback, optional name), supporting bulk removal by predicate".
\<close>

definition add_callback :: "callback_record \<Rightarrow> manager \<Rightarrow> manager" where
  "add_callback r st = st\<lparr>callback_cache := callback_cache st @ [r]\<rparr>"

definition remove_callbacks :: "(callback_record \<Rightarrow> bool) \<Rightarrow> manager \<Rightarrow> manager" where
  "remove_callbacks p st = st\<lparr>callback_cache := filter (\<lambda>r. \<not> p r) (callback_cache st)\<rparr>"

section \<open>Access lock gate\<close>

definition LOCKED_COMMANDS :: "jv list" where
  "LOCKED_COMMANDS =
     [JStr ''table'', JStr ''update'', JStr ''remove'', JStr ''replace'', JStr ''clear'']"

definition is_locked_command :: "manager \<Rightarrow> pydict \<Rightarrow> exn + bool" where
  "is_locked_command st msg =
     (if \<not> lock st then Inr False
      else case subscript msg ''cmd'' of
        Inl e \<Rightarrow> Inl e
      | Inr cmd \<Rightarrow>
          (let method = dict_get msg ''method'' JNull in
           if cmd = JStr ''table_method'' \<and> method = JStr ''delete'' then Inr True
           else Inr (cmd = JStr ''table'' \<or> method \<in> set LOCKED_COMMANDS)))"

text \<open>
  The label of the access-denied error:
  \<^verbatim>\<open>msg["cmd"] + (("." + msg["method"]) if msg.get("method", None) is not None else "")\<close>.
\<close>

definition method_suffix :: "pydict \<Rightarrow> exn + string" where
  "method_suffix msg =
     (if dict_get msg ''method'' JNull \<noteq> JNull
      then (case dict_get msg ''method'' JNull of
              JStr m \<Rightarrow> Inr (''.'' @ m)
            | _ \<Rightarrow> Inl (Exn TypeError ''can only concatenate str to str''))
      else Inr [])"

definition access_label :: "pydict \<Rightarrow> exn + string" where
  "access_label msg =
     (case subscript msg ''cmd'' of
        Inl e \<Rightarrow> Inl e
      | Inr cmd \<Rightarrow>
          (case method_suffix msg of
             Inl e \<Rightarrow> Inl e
           | Inr suffix \<Rightarrow>
               (case cmd of
                  JStr c \<Rightarrow> Inr (c @ suffix)
                | _ \<Rightarrow> Inl (Exn TypeError ''unsupported operand type(s) for +''))))"

definition access_denied :: "string \<Rightarrow> string" where
  "access_denied label = ''`'' @ label @ ''` failed - access denied''"

section \<open>Steps of the dispatcher\<close>

text \<open>
  A step of the dispatcher takes the manager and returns a value or the exception it
  raises, with the manager as the step left it. \<open>and_then\<close> runs the next step on the
  value, or stops at the exception; \<open>catch\<close> is \<^verbatim>\<open>try\<close> with its handler.
\<close>

type_synonym 'a step = "manager \<Rightarrow> (exn + 'a) \<times> manager"

definition ret :: "exn + 'a \<Rightarrow> 'a step" where
  "ret r st = (r, st)"

definition and_then :: "'a step \<Rightarrow> ('a \<Rightarrow> 'b step) \<Rightarrow> 'b step" where
  "and_then m f st = (case m st of (Inl e, st') \<Rightarrow> (Inl e, st') | (Inr x, st') \<Rightarrow> f x st')"

definition catch :: "'a step \<Rightarrow> (exn \<Rightarrow> 'a step) \<Rightarrow> 'a step" where
  "catch m h st = (case m st of (Inl e, st') \<Rightarrow> h e st' | (Inr x, st') \<Rightarrow> (Inr x, st'))"

definition update_state :: "(manager \<Rightarrow> manager) \<Rightarrow> unit step" where
  "update_state f st = (Inr (), f st)"

section \<open>Responses and the binary transfer\<close>

text \<open>\<^verbatim>\<open>post_callback(self._message_to_json(id, message))\<close>\<close>

definition post_message :: "jv \<Rightarrow> pydict \<Rightarrow> unit step" where
  "post_message i message =
     and_then (ret (message_to_json i message)) (\<lambda>w. update_state (post (Text w)))"

text \<open>An error response for the request: \<^verbatim>\<open>msg["id"]\<close> is read first.\<close>

definition post_error :: "pydict \<Rightarrow> string \<Rightarrow> unit step" where
  "post_error msg error =
     and_then (ret (subscript msg ''id'')) (\<lambda>i. post_message i (make_error_message i error))"

definition post_result :: "pydict \<Rightarrow> jv \<Rightarrow> unit step" where
  "post_result msg result =
     and_then (ret (subscript msg ''id'')) (\<lambda>i. post_message i (make_message i result))"

text \<open>
  \<^verbatim>\<open>_process_bytes\<close>: the request, marked \<^verbatim>\<open>is_transferable\<close>, is written with
  \<^verbatim>\<open>DateTimeEncoder\<close> and the default \<^verbatim>\<open>allow_nan\<close>; the bytes follow.
\<close>

definition process_bytes :: "nat list \<Rightarrow> pydict \<Rightarrow> unit step" where
  "process_bytes binary msg =
     and_then (ret (json_dumps True True
        (JDict (AList.update ''is_transferable'' (JBool True) msg)))) (\<lambda>w.
     and_then (update_state (post (Text w))) (\<lambda>u.
     update_state (post (Binary binary))))"

section \<open>Method invocation policy\<close>

definition starts_with :: "string \<Rightarrow> string \<Rightarrow> bool" where
  "starts_with p s = (take (length p) s = p)"

definition schema_methods :: "string list" where
  "schema_methods = [''schema'', ''computed_schema'', ''get_computation_input_types'']"

text \<open>
  The first \<^verbatim>\<open>if\<close> chain of \<^verbatim>\<open>_process_method_call\<close>, which binds the local
  \<^verbatim>\<open>args\<close>: a dictionary for the schema methods and for \<^verbatim>\<open>to_*\<close>, otherwise whatever
  the message has under \<^verbatim>\<open>args\<close>. \<^verbatim>\<open>startswith\<close> exists on strings only.
\<close>

definition merged_options :: "pydict \<Rightarrow> exn + jv" where
  "merged_options msg =
     (case py_iter (dict_get msg ''args'' (JList [])) of
        Inl e \<Rightarrow> Inl e
      | Inr ds \<Rightarrow> (case update_all [] ds of Inl e \<Rightarrow> Inl e | Inr a \<Rightarrow> Inr (JDict a)))"

definition shape_args :: "pydict \<Rightarrow> jv \<Rightarrow> exn + jv" where
  "shape_args msg method =
     (if method \<in> set (map JStr schema_methods) then Inr (JDict [(''as_string'', JBool True)])
      else case method of
        JStr m \<Rightarrow>
          if starts_with ''to_'' m then merged_options msg
          else Inr (dict_get msg ''args'' (JList []))
      | JBytes b \<Rightarrow> Inl (Exn TypeError ''startswith first arg must be bytes'')
      | _ \<Rightarrow> Inl (Exn AttributeError ''object has no attribute startswith''))"

text \<open>
  \<^verbatim>\<open>options = {}; if len(args) > 1 and isinstance(args[1], dict): options = args[1]\<close>
\<close>

definition options_of :: "jv \<Rightarrow> exn + pydict" where
  "options_of args =
     (case py_len args of
        Inl e \<Rightarrow> Inl e
      | Inr n \<Rightarrow>
          if 1 < n then
            (case py_getitem args 1 of
               Inl e \<Rightarrow> Inl e
             | Inr a1 \<Rightarrow> (case a1 of JDict opts \<Rightarrow> Inr opts | _ \<Rightarrow> Inr []))
          else Inr [])"

definition unbound_result :: exn where
  "unbound_result =
     Exn UnboundLocalError
       (''local variable '' @ quoted ''result'' @ '' referenced before assignment'')"

text \<open>
  The four calls of the second chain, each with its sub-expressions in Python's order
  of evaluation: \<^verbatim>\<open>getattr\<close> first, then the arguments; for \<^verbatim>\<open>update\<close> and
  \<^verbatim>\<open>remove\<close> the statements that bind \<^verbatim>\<open>data\<close> and \<^verbatim>\<open>options\<close> come before.
\<close>

text \<open>\<^verbatim>\<open>getattr(table_or_view, msg["method"])(**args)\<close>\<close>

definition call_keywords :: "runtime \<Rightarrow> handle \<Rightarrow> string \<Rightarrow> jv \<Rightarrow> jv step" where
  "call_keywords rt h m args =
     and_then (ret (getattr h m)) (\<lambda>u.
     and_then (ret (py_mapping args)) (\<lambda>kw.
     engine_call rt (Method h m [] kw)))"

text \<open>\<^verbatim>\<open>getattr(table_or_view, msg["method"])(data, **options)\<close>\<close>

definition call_data_options :: "runtime \<Rightarrow> handle \<Rightarrow> string \<Rightarrow> jv \<Rightarrow> jv step" where
  "call_data_options rt h m args =
     and_then (ret (py_getitem args 0)) (\<lambda>data.
     and_then (ret (options_of args)) (\<lambda>options.
     and_then (ret (getattr h m)) (\<lambda>u.
     engine_call rt (Method h m [data] options))))"

text \<open>\<^verbatim>\<open>getattr(table_or_view, msg["method"])(*msg.get("args", []), **args)\<close>\<close>

definition call_positional_keywords ::
  "runtime \<Rightarrow> pydict \<Rightarrow> handle \<Rightarrow> string \<Rightarrow> jv \<Rightarrow> jv step" where
  "call_positional_keywords rt msg h m args =
     and_then (ret (getattr h m)) (\<lambda>u.
     and_then (ret (py_iter (dict_get msg ''args'' (JList [])))) (\<lambda>pos.
     and_then (ret (py_mapping args)) (\<lambda>kw.
     engine_call rt (Method h m pos kw))))"

text \<open>\<^verbatim>\<open>getattr(table_or_view, msg["method"])(*args)\<close>\<close>

definition call_positional :: "runtime \<Rightarrow> handle \<Rightarrow> string \<Rightarrow> jv \<Rightarrow> jv step" where
  "call_positional rt h m args =
     and_then (ret (getattr h m)) (\<lambda>u.
     and_then (ret (py_iter args)) (\<lambda>pos.
     engine_call rt (Method h m pos [])))"

text \<open>
  The second chain. For \<^verbatim>\<open>delete\<close> no branch is taken, and reading \<^verbatim>\<open>result\<close>
  raises.
\<close>

definition invoke :: "runtime \<Rightarrow> pydict \<Rightarrow> handle \<Rightarrow> string \<Rightarrow> jv \<Rightarrow> jv step" where
  "invoke rt msg h m args =
     (if starts_with ''to_'' m then call_keywords rt h m args
      else if m \<in> set [''update'', ''remove''] then call_data_options rt h m args
      else if m \<in> set [''computed_schema'', ''get_computation_input_types'']
        then call_positional_keywords rt msg h m args
      else if m \<noteq> ''delete'' then call_positional rt h m args
      else ret (Inl unbound_result))"

text \<open>
  \<^verbatim>\<open>if isinstance(result, bytes) and msg["method"] != "to_csv"\<close>: the binary transfer,
  otherwise the result in a success message.
\<close>

definition deliver :: "pydict \<Rightarrow> string \<Rightarrow> jv \<Rightarrow> unit step" where
  "deliver msg m result =
     (case result of
        JBytes b \<Rightarrow> if m \<noteq> ''to_csv'' then process_bytes b msg else post_result msg result
      | _ \<Rightarrow> post_result msg result)"

text \<open>
  \<^verbatim>\<open>self._views[msg["name"]]\<close>, which raises on a missing name, and
  \<^verbatim>\<open>self._views.pop(msg["name"], None)\<close>.
\<close>

definition view_item :: "runtime \<Rightarrow> jv \<Rightarrow> nat step" where
  "view_item rt name st =
     (case map_of (views st) name of
        None \<Rightarrow> Inl (Exn KeyError (py_repr rt name))
      | Some vc \<Rightarrow> Inr (fst vc), st)"

definition pop_view :: "jv \<Rightarrow> manager \<Rightarrow> manager" where
  "pop_view name st = st\<lparr>views := AList.delete name (views st)\<rparr>"

text \<open>
  \<^verbatim>\<open>self._views[msg["name"]].delete(); self._views.pop(msg["name"], None); return\<close>
\<close>

definition delete_view :: "runtime \<Rightarrow> jv \<Rightarrow> unit step" where
  "delete_view rt name =
     and_then (view_item rt name) (\<lambda>v.
     and_then (engine_call rt (Method (ViewObj v) ''delete'' [] [])) (\<lambda>r.
     update_state (pop_view name)))"

section \<open>Subscriptions\<close>

text \<open>\<^verbatim>\<open>method and method[:2] == "on"\<close>: a falsy method is not sliced.\<close>

definition on_method :: "jv \<Rightarrow> exn + bool" where
  "on_method method =
     (if \<not> truthy method then Inr False
      else case method of
        JStr s \<Rightarrow> Inr (take 2 s = ''on'')
      | JList xs \<Rightarrow> Inr False
      | JBytes b \<Rightarrow> Inr False
      | _ \<Rightarrow> Inl (Exn TypeError ''object is not subscriptable''))"

text \<open>
  The callback is stored when \<^verbatim>\<open>callback_id\<close> is truthy (\<^verbatim>\<open>if callback_id:\<close>).
\<close>

definition register_callback :: "pydict \<Rightarrow> string option \<Rightarrow> callback \<Rightarrow> manager \<Rightarrow> manager" where
  "register_callback msg client_id callback st =
     (if truthy (dict_get msg ''callback_id'' JNull)
      then add_callback \<lparr>cb_client_id = client_id,
             cb_callback_id = dict_get msg ''callback_id'' JNull,
             cb_callback = callback, cb_name = dict_get msg ''name'' JNull\<rparr> st
      else st)"

text \<open>
  Without an \<^verbatim>\<open>on\<close> method the callbacks are filtered when \<^verbatim>\<open>callback_id\<close> is not
  \<^verbatim>\<open>None\<close>; no callback was made, and the source only logs.
\<close>

definition unregister_callback :: "pydict \<Rightarrow> manager \<Rightarrow> manager" where
  "unregister_callback msg st =
     (if dict_get msg ''callback_id'' JNull \<noteq> JNull
      then remove_callbacks (\<lambda>cb. cb_callback_id cb \<noteq> dict_get msg ''callback_id'' JNull) st
      else st)"

text \<open>
  \<^verbatim>\<open>mode = {"mode": "none"}; if len(args) > 0: mode = args[0]\<close>
\<close>

definition update_mode :: "jv \<Rightarrow> exn + jv" where
  "update_mode args =
     (case py_len args of
        Inl e \<Rightarrow> Inl e
      | Inr n \<Rightarrow> if 0 < n then py_getitem args 0 else Inr (JDict [(''mode'', JStr ''none'')]))"

text \<open>The call of the \<^verbatim>\<open>on\<close> method with the callback.\<close>

definition subscribe_call :: "runtime \<Rightarrow> pydict \<Rightarrow> handle \<Rightarrow> string \<Rightarrow> callback \<Rightarrow> unit step" where
  "subscribe_call rt msg h m callback =
     (if m = ''on_update'' then
        and_then (ret (update_mode (dict_get msg ''args'' (JList [])))) (\<lambda>mode.
        and_then (ret (getattr h m)) (\<lambda>u.
        and_then (ret (py_mapping mode)) (\<lambda>kw.
        and_then (engine_call rt (Subscribe h m callback kw)) (\<lambda>r. ret (Inr ())))))
      else
        and_then (ret (getattr h m)) (\<lambda>u.
        and_then (engine_call rt (Subscribe h m callback [])) (\<lambda>r. ret (Inr ()))))"

text \<open>The body of the \<^verbatim>\<open>try\<close> of \<^verbatim>\<open>_process_subscribe\<close>.\<close>

definition subscribe_body :: "runtime \<Rightarrow> pydict \<Rightarrow> handle \<Rightarrow> string option \<Rightarrow> unit step" where
  "subscribe_body rt msg h client_id =
     and_then (ret (on_method (dict_get msg ''method'' JNull))) (\<lambda>on.
       if on then
         and_then (update_state (register_callback msg client_id (Callback msg))) (\<lambda>u.
           case dict_get msg ''method'' JNull of
             JStr m \<Rightarrow> subscribe_call rt msg h m (Callback msg)
           | _ \<Rightarrow> ret (Inl (Exn TypeError ''attribute name must be string'')))
       else update_state (unregister_callback msg))"

definition process_subscribe ::
  "runtime \<Rightarrow> pydict \<Rightarrow> handle \<Rightarrow> string option \<Rightarrow> unit step" where
  "process_subscribe rt msg h client_id =
     catch (subscribe_body rt msg h client_id) (\<lambda>error. post_error msg (exn_str error))"

section \<open>Command router\<close>

text \<open>
  The handle a method call works on. A table name goes through \<^verbatim>\<open>dict.get\<close>, so a
  missing table is \<^verbatim>\<open>None\<close>. A missing view is \<^verbatim>\<open>None\<close> too, after the error
  response "View is not initialized" was posted: the source has no \<^verbatim>\<open>return\<close> there.
\<close>

definition table_get :: "jv \<Rightarrow> handle step" where
  "table_get name st =
     (if hashable name
      then Inr (case map_of (tables st) name of None \<Rightarrow> NoneType | Some h \<Rightarrow> h)
      else Inl unhashable, st)"

definition view_get :: "jv \<Rightarrow> handle step" where
  "view_get name st =
     (if hashable name
      then Inr (case map_of (views st) name of None \<Rightarrow> NoneType | Some vc \<Rightarrow> ViewObj (fst vc))
      else Inl unhashable, st)"

definition resolve :: "pydict \<Rightarrow> jv \<Rightarrow> jv \<Rightarrow> handle step" where
  "resolve msg cmd name =
     (if cmd = JStr ''table_method'' then table_get name
      else
        and_then (view_get name) (\<lambda>table_or_view.
          if table_or_view = NoneType
          then and_then (post_error msg ''View is not initialized'') (\<lambda>u. ret (Inr NoneType))
          else ret (Inr table_or_view)))"

text \<open>The part of the \<^verbatim>\<open>try\<close> of \<^verbatim>\<open>_process_method_call\<close> that is no subscription.\<close>

definition plain_call ::
  "runtime \<Rightarrow> pydict \<Rightarrow> jv \<Rightarrow> jv \<Rightarrow> handle \<Rightarrow> unit step" where
  "plain_call rt msg cmd name h =
     and_then (ret (subscript msg ''method'')) (\<lambda>method.
     and_then (ret (shape_args msg method)) (\<lambda>args.
       case method of
         JStr m \<Rightarrow>
           if m = ''delete'' \<and> cmd = JStr ''view_method'' then delete_view rt name
           else and_then (invoke rt msg h m args) (\<lambda>result. deliver msg m result)
       | _ \<Rightarrow> ret (Inl (Exn TypeError ''attribute name must be string''))))"

definition method_call_body ::
  "runtime \<Rightarrow> pydict \<Rightarrow> jv \<Rightarrow> jv \<Rightarrow> handle \<Rightarrow> string option \<Rightarrow> unit step" where
  "method_call_body rt msg cmd name h client_id =
     (if dict_get msg ''subscribe'' (JBool False) = JBool True
      then process_subscribe rt msg h client_id
      else plain_call rt msg cmd name h)"

definition process_method_call :: "runtime \<Rightarrow> pydict \<Rightarrow> string option \<Rightarrow> unit step" where
  "process_method_call rt msg client_id =
     and_then (ret (subscript msg ''cmd'')) (\<lambda>cmd.
     and_then (ret (subscript msg ''name'')) (\<lambda>name.
     and_then (resolve msg cmd name) (\<lambda>table_or_view.
     catch (method_call_body rt msg cmd name table_or_view client_id)
       (\<lambda>error. post_error msg (exn_str error)))))"

text \<open>
  The \<^verbatim>\<open>table\<close> command. The right-hand side \<^verbatim>\<open>Table(data_or_schema, **options)\<close>
  is evaluated before the key \<^verbatim>\<open>msg["name"]\<close>; an \<^verbatim>\<open>IndexError\<close> from anywhere in
  the inner \<^verbatim>\<open>try\<close> registers the empty list under the name. The new table is
  numbered by the position of its constructor call in the trace.
\<close>

definition set_table :: "pydict \<Rightarrow> handle \<Rightarrow> unit step" where
  "set_table msg h =
     and_then (ret (subscript msg ''name'')) (\<lambda>name.
       if hashable name
       then update_state (\<lambda>st. st\<lparr>tables := AList.update name h (tables st)\<rparr>)
       else ret (Inl unhashable))"

definition engine_new :: "runtime \<Rightarrow> call \<Rightarrow> nat step" where
  "engine_new rt c st =
     (case engine rt (trace st) c of Inl e \<Rightarrow> Inl e | Inr r \<Rightarrow> Inr (length (trace st)),
      st\<lparr>trace := trace st @ [c]\<rparr>)"

definition create_table :: "runtime \<Rightarrow> pydict \<Rightarrow> unit step" where
  "create_table rt msg =
     and_then (ret (subscript msg ''args'')) (\<lambda>a.
     and_then (ret (py_getitem a 0)) (\<lambda>data_or_schema.
     and_then (ret (py_mapping (dict_get msg ''options'' (JDict [])))) (\<lambda>options.
     and_then (engine_new rt (Construct data_or_schema options)) (\<lambda>n.
     set_table msg (TableObj n)))))"

definition table_command :: "runtime \<Rightarrow> pydict \<Rightarrow> unit step" where
  "table_command rt msg =
     catch (create_table rt msg) (\<lambda>e.
       if exn_class e = IndexError then set_table msg EmptyList else ret (Inl e))"

text \<open>
  The \<^verbatim>\<open>view\<close> command: the table is looked up with \<^verbatim>\<open>self._tables[...]\<close>, which
  raises on a missing name; the new view is tagged with the client id.
\<close>

definition table_item :: "runtime \<Rightarrow> jv \<Rightarrow> handle step" where
  "table_item rt name st =
     (if hashable name
      then (case map_of (tables st) name of
              None \<Rightarrow> Inl (Exn KeyError (py_repr rt name))
            | Some h \<Rightarrow> Inr h)
      else Inl unhashable, st)"

definition set_view :: "pydict \<Rightarrow> nat \<Rightarrow> string option \<Rightarrow> unit step" where
  "set_view msg v client_id =
     and_then (ret (subscript msg ''view_name'')) (\<lambda>name.
       if hashable name
       then update_state (\<lambda>st. st\<lparr>views := AList.update name (v, client_id) (views st)\<rparr>)
       else ret (Inl unhashable))"

definition view_command :: "runtime \<Rightarrow> pydict \<Rightarrow> string option \<Rightarrow> unit step" where
  "view_command rt msg client_id =
     and_then (ret (subscript msg ''table_name'')) (\<lambda>table_name.
     and_then (table_item rt table_name) (\<lambda>t.
     and_then (ret (getattr t ''view'')) (\<lambda>u.
     and_then (ret (py_mapping (dict_get msg ''config'' (JDict [])))) (\<lambda>config.
     and_then (engine_new rt (Method t ''view'' [] config)) (\<lambda>v.
     set_view msg v client_id)))))"

text \<open>The \<^verbatim>\<open>if\<close>/\<^verbatim>\<open>elif\<close> chain on \<^verbatim>\<open>cmd\<close>; an unknown command does nothing.\<close>

definition route :: "runtime \<Rightarrow> jv \<Rightarrow> pydict \<Rightarrow> string option \<Rightarrow> unit step" where
  "route rt cmd msg client_id =
     (if cmd = JStr ''init'' then post_result msg JNull
      else if cmd = JStr ''table'' then table_command rt msg
      else if cmd = JStr ''view'' then view_command rt msg client_id
      else if cmd = JStr ''table_method'' \<or> cmd = JStr ''view_method''
        then process_method_call rt msg client_id
      else ret (Inr ()))"

text \<open>
  \<^verbatim>\<open>_process\<close> on a decoded message: the lock gate first, then the routing inside
  \<^verbatim>\<open>try\<close>, where only \<^verbatim>\<open>PerspectiveError\<close> and \<^verbatim>\<open>PerspectiveCppError\<close> are
  caught. An exception that leaves \<^verbatim>\<open>_process\<close> is the \<open>Inl\<close> of the result.
\<close>

definition check_lock :: "pydict \<Rightarrow> bool step" where
  "check_lock msg st = (is_locked_command st msg, st)"

definition deny :: "pydict \<Rightarrow> unit step" where
  "deny msg =
     and_then (ret (access_label msg)) (\<lambda>label. post_error msg (access_denied label))"

definition process_message :: "runtime \<Rightarrow> pydict \<Rightarrow> string option \<Rightarrow> unit step" where
  "process_message rt msg client_id =
     and_then (ret (subscript msg ''cmd'')) (\<lambda>cmd.
     and_then (check_lock msg) (\<lambda>blocked.
       if blocked then deny msg
       else catch (route rt cmd msg client_id) (\<lambda>e.
              if exn_class e \<in> {PerspectiveError, PerspectiveCppError}
              then post_error msg (exn_str e)
              else ret (Inl e))))"

text \<open>
  \<^verbatim>\<open>_process\<close>: the string "heartbeat" is dropped, any other string is parsed, and what
  is then no dictionary raises \<^verbatim>\<open>PerspectiveError\<close> outside the \<^verbatim>\<open>try\<close>.
\<close>

definition not_a_message :: exn where
  "not_a_message = Exn PerspectiveError
     ''Message passed into `_process` should either be a JSON-serialized string or a dict.''"

definition process_decoded :: "runtime \<Rightarrow> jv \<Rightarrow> string option \<Rightarrow> unit step" where
  "process_decoded rt v client_id =
     (case v of
        JDict msg \<Rightarrow> process_message rt msg client_id
      | _ \<Rightarrow> ret (Inl not_a_message))"

definition process :: "runtime \<Rightarrow> jv \<Rightarrow> string option \<Rightarrow> unit step" where
  "process rt raw client_id =
     (case raw of
        JStr s \<Rightarrow>
          if s = ''heartbeat'' then ret (Inr ())
          else and_then (ret (json_loads rt s)) (\<lambda>v. process_decoded rt v client_id)
      | _ \<Rightarrow> process_decoded rt raw client_id)"

section \<open>Properties of values and frames\<close>

text \<open>
  A plain JSON value holds no \<^verbatim>\<open>bytes\<close> and no datetime: this is what
  \<^verbatim>\<open>json.loads\<close> yields. A frame carries an id when it is the text of a JSON object
  whose \<^verbatim>\<open>id\<close> is that value.
\<close>

primrec plain_json :: "jv \<Rightarrow> bool" where
  "plain_json JNull = True"
| "plain_json (JBool b) = True"
| "plain_json (JInt i) = True"
| "plain_json (JFloat f) = True"
| "plain_json (JStr s) = True"
| "plain_json (JBytes b) = False"
| "plain_json (JDatetime t) = False"
| "plain_json (JList xs) = list_all (\<lambda>b. b) (map plain_json xs)"
| "plain_json (JDict kvs) = list_all (\<lambda>b. b) (map snd (map (map_prod id plain_json) kvs))"

fun carries_id :: "jv \<Rightarrow> frame \<Rightarrow> bool" where
  "carries_id i (Text (JDict d)) = (map_of d ''id'' = Some i)"
| "carries_id i f = False"

text \<open>
  The lock gate in the words of the specification: when locked, blocked are the
  \<^verbatim>\<open>table\<close> command, a method call whose method is one of update, remove, replace,
  clear, and a \<^verbatim>\<open>table_method\<close> call of \<^verbatim>\<open>delete\<close>.
\<close>

definition spec_is_blocked :: "bool \<Rightarrow> jv \<Rightarrow> jv \<Rightarrow> bool" where
  "spec_is_blocked locked cmd method =
     (locked \<and>
      (cmd = JStr ''table'' \<or>
       ((cmd = JStr ''table_method'' \<or> cmd = JStr ''view_method'') \<and> method \<in>
          set [JStr ''update'', JStr ''remove'', JStr ''replace'', JStr ''clear'']) \<or>
       (cmd = JStr ''table_method'' \<and> method = JStr ''delete'')))"

text \<open>
  The handle registered under the name of a method call: a table for
  \<^verbatim>\<open>table_method\<close>, otherwise a view. An engine object is a table or a view, as
  opposed to \<^verbatim>\<open>None\<close> and the empty list.
\<close>

definition registered :: "manager \<Rightarrow> jv \<Rightarrow> jv \<Rightarrow> handle option" where
  "registered st cmd name =
     (if cmd = JStr ''table_method'' then map_of (tables st) name
      else map_option (\<lambda>vc. ViewObj (fst vc)) (map_of (views st) name))"

fun engine_object :: "handle \<Rightarrow> bool" where
  "engine_object (TableObj n) = True"
| "engine_object (ViewObj n) = True"
| "engine_object h = False"

text \<open>The keyword options of an update: the second argument when it is an object.\<close>

fun keyword_options :: "jv list \<Rightarrow> pydict" where
  "keyword_options (JDict opts # rest) = opts"
| "keyword_options rest = []"

fun is_text :: "frame \<Rightarrow> bool" where
  "is_text (Text w) = True"
| "is_text (Binary b) = False"

text \<open>A call that invokes \<^verbatim>\<open>delete\<close> on an entry of the table registry.\<close>

fun table_handle :: "handle \<Rightarrow> bool" where
  "table_handle (TableObj n) = True"
| "table_handle EmptyList = True"
| "table_handle h = False"

fun deletes_table :: "call \<Rightarrow> bool" where
  "deletes_table (Method h m a k) = (m = ''delete'' \<and> table_handle h)"
| "deletes_table c = False"

text \<open>
  What a step may do to the manager. Always: the lock stays, frames and engine calls
  are only appended, and no appended call deletes a table. With \<open>tbl\<close> the table
  registry may gain or overwrite names, without it the registry stays as it is; without
  \<open>vdel\<close> the view registry loses no name.
\<close>

definition changes :: "bool \<Rightarrow> bool \<Rightarrow> manager \<Rightarrow> manager \<Rightarrow> bool" where
  "changes tbl vdel st st' \<longleftrightarrow>
     lock st' = lock st \<and>
     (\<exists>fs. posted st' = posted st @ fs) \<and>
     (\<exists>cs. trace st' = trace st @ cs \<and> list_all (\<lambda>c. \<not> deletes_table c) cs) \<and>
     (if tbl then fst ` set (tables st) \<subseteq> fst ` set (tables st') else tables st' = tables st) \<and>
     (vdel \<or> fst ` set (views st) \<subseteq> fst ` set (views st'))"

definition steady :: "bool \<Rightarrow> bool \<Rightarrow> 'a step \<Rightarrow> bool" where
  "steady tbl vdel m \<longleftrightarrow> (\<forall>st. changes tbl vdel st (snd (m st)))"

text \<open>A step that only posts frames, and one that posts only JSON texts.\<close>

definition posts_only :: "'a step \<Rightarrow> bool" where
  "posts_only m \<longleftrightarrow> (\<forall>st. \<exists>fs. snd (m st) = st\<lparr>posted := posted st @ fs\<rparr>)"

definition texts_only :: "'a step \<Rightarrow> bool" where
  "texts_only m \<longleftrightarrow>
     (\<forall>st. \<exists>fs. posted (snd (m st)) = posted st @ fs \<and> list_all is_text fs)"

text \<open>
  A silent step posts nothing. A step answers the request with id \<open>i\<close> when it either
  raises without having posted, or returns having posted frames of which the first
  carries \<open>i\<close>.
\<close>

definition silent :: "'a step \<Rightarrow> bool" where
  "silent m \<longleftrightarrow> (\<forall>st. posted (snd (m st)) = posted st)"

definition answers :: "jv \<Rightarrow> unit step \<Rightarrow> bool" where
  "answers i m \<longleftrightarrow>
     (\<forall>st. case m st of
        (Inl e, st') \<Rightarrow> posted st' = posted st
      | (Inr u, st') \<Rightarrow> (\<exists>f fs. posted st' = posted st @ f # fs \<and> carries_id i f))"

section \<open>Sample engines, managers and requests\<close>

text \<open>An engine on which every call succeeds and returns \<^verbatim>\<open>None\<close>.\<close>

definition quiet_runtime :: runtime where
  "quiet_runtime = \<lparr>json_loads = (\<lambda>s. Inl (Exn JSONDecodeError ''Expecting value'')),
     py_repr = quoted \<circ> (\<lambda>v. case v of JStr s \<Rightarrow> s | _ \<Rightarrow> ''?''),
     engine = (\<lambda>tr c. Inr JNull)\<rparr>"

definition new_manager :: "bool \<Rightarrow> manager" where
  "new_manager l = \<lparr>lock = l, tables = [], views = [], callback_cache = [], posted = [],
     trace = []\<rparr>"

text \<open>The manager after table \<^verbatim>\<open>t\<close> and its view \<^verbatim>\<open>v\<close> of client \<^verbatim>\<open>c1\<close> were made.\<close>

definition with_table_and_view :: manager where
  "with_table_and_view = \<lparr>lock = False, tables = [(JStr ''t'', TableObj 0)],
     views = [(JStr ''v'', 1, Some ''c1'')], callback_cache = [], posted = [],
     trace = [Construct (JDict [(''a'', JStr ''integer'')]) [],
              Method (TableObj 0) ''view'' [] []]\<rparr>"

definition table_request :: pydict where
  "table_request = [(''id'', JInt 1), (''cmd'', JStr ''table''), (''name'', JStr ''t''),
     (''args'', JList [JDict [(''a'', JStr ''integer'')]])]"

definition view_request :: pydict where
  "view_request = [(''id'', JInt 2), (''cmd'', JStr ''view''), (''table_name'', JStr ''t''),
     (''view_name'', JStr ''v''), (''config'', JDict [])]"

definition unknown_view_request :: pydict where
  "unknown_view_request = [(''id'', JInt 1), (''cmd'', JStr ''view_method''),
     (''name'', JStr ''w''), (''method'', JStr ''schema'')]"

definition schema_request :: pydict where
  "schema_request = [(''id'', JInt 1), (''cmd'', JStr ''table_method''),
     (''name'', JStr ''t''), (''method'', JStr ''schema''), (''args'', JList [])]"

definition subscribe_request :: pydict where
  "subscribe_request = [(''id'', JInt 3), (''cmd'', JStr ''view_method''),
     (''name'', JStr ''v''), (''method'', JStr ''on_update''), (''subscribe'', JBool True),
     (''callback_id'', JInt 0)]"

definition method_named_table :: pydict where
  "method_named_table = [(''id'', JInt 1), (''cmd'', JStr ''view_method''),
     (''name'', JStr ''v''), (''method'', JStr ''table'')]"

definition update_request :: pydict where
  "update_request = [(''id'', JInt 4), (''cmd'', JStr ''table_method''),
     (''name'', JStr ''t''), (''method'', JStr ''update''),
     (''args'', JList [JList [JDict [(''a'', JInt 1)]], JInt 7])]"

text \<open>An engine whose \<^verbatim>\<open>to_arrow\<close> returns bytes and whose \<^verbatim>\<open>to_csv\<close> returns text.\<close>

definition arrow_runtime :: runtime where
  "arrow_runtime = \<lparr>json_loads = (\<lambda>s. Inl (Exn JSONDecodeError ''Expecting value'')),
     py_repr = quoted \<circ> (\<lambda>v. case v of JStr s \<Rightarrow> s | _ \<Rightarrow> ''?''),
     engine = (\<lambda>tr c. case c of
        Method h m a k \<Rightarrow>
          if m = ''to_arrow'' then Inr (JBytes [65, 82, 82, 79, 87])
          else if m = ''to_csv'' then Inr (JStr ''a,1'')
          else Inr JNull
      | _ \<Rightarrow> Inr JNull)\<rparr>"

definition to_arrow_request :: pydict where
  "to_arrow_request = [(''id'', JInt 5), (''cmd'', JStr ''view_method''),
     (''name'', JStr ''v''), (''method'', JStr ''to_arrow''), (''args'', JList [])]"

definition to_csv_request :: pydict where
  "to_csv_request = [(''id'', JInt 6), (''cmd'', JStr ''view_method''),
     (''name'', JStr ''v''), (''method'', JStr ''to_csv''), (''args'', JList [])]"

definition delete_table_request :: pydict where
  "delete_table_request = [(''id'', JInt 7), (''cmd'', JStr ''table_method''),
     (''name'', JStr ''t''), (''method'', JStr ''delete'')]"

definition unsubscribe_request :: pydict where
  "unsubscribe_request = [(''id'', JInt 8), (''cmd'', JStr ''table_method''),
     (''name'', JStr ''nope''), (''method'', JStr ''remove_update''),
     (''subscribe'', JBool True), (''callback_id'', JInt 1)]"

definition missing_table_request :: pydict where
  "missing_table_request = [(''id'', JInt 9), (''cmd'', JStr ''table_method''),
     (''name'', JStr ''nope''), (''method'', JStr ''schema'')]"

definition init_request :: pydict where
  "init_request = [(''id'', JInt 0), (''cmd'', JStr ''init'')]"

section \<open>Laws of the steps\<close>

lemma ret_apply [simp]: "ret r st = (r, st)"
  by (simp add: ret_def)

lemma update_state_apply [simp]: "update_state f st = (Inr (), f st)"
  by (simp add: update_state_def)

lemma and_then_ret_Inr [simp]: "and_then (ret (Inr x)) f = f x"
  by (rule ext) (simp add: and_then_def)

lemma and_then_ret_Inl [simp]: "and_then (ret (Inl e)) f = ret (Inl e)"
  by (rule ext) (simp add: and_then_def)

lemma and_then_update_state [simp]: "and_then (update_state f) g st = g () (f st)"
  by (simp add: and_then_def)

lemma and_then_apply:
  "and_then m f st = (case m st of (Inl e, st') \<Rightarrow> (Inl e, st') | (Inr x, st') \<Rightarrow> f x st')"
  by (simp add: and_then_def)

lemma and_then_Inr: "m st = (Inr x, st') \<Longrightarrow> and_then m f st = f x st'"
  by (simp add: and_then_def)

lemma catch_ret_Inr [simp]: "catch (ret (Inr x)) h = ret (Inr x)"
  by (rule ext) (simp add: catch_def)

lemma catch_ret_Inl [simp]: "catch (ret (Inl e)) h = h e"
  by (rule ext) (simp add: catch_def)

lemma subscript_Inr: "subscript d k = Inr v \<longleftrightarrow> map_of d k = Some v"
  by (simp add: subscript_def split: option.splits)

lemma post_fields [simp]:
  "posted (post f st) = posted st @ [f]"
  "tables (post f st) = tables st"
  "views (post f st) = views st"
  "trace (post f st) = trace st"
  "callback_cache (post f st) = callback_cache st"
  "lock (post f st) = lock st"
  by (simp_all add: post_def)

section \<open>The encoder on plain values\<close>

lemma sequence_map_id:
  "(\<And>x. x \<in> set xs \<Longrightarrow> f x = Inr x) \<Longrightarrow> sequence (map f xs) = Inr xs"
  by (induction xs) auto

lemma json_dumps_plain: "plain_json v \<Longrightarrow> json_dumps True dt v = Inr v"
proof (induction v)
  case (JFloat f)
  then show ?case by (cases f) auto
next
  case (JList xs)
  then have "sequence (map (json_dumps True dt) xs) = Inr xs"
    by (intro sequence_map_id) (auto simp: list_all_iff)
  then show ?case by simp
next
  case (JDict kvs)
  have "sequence (map keyed (map (map_prod id (json_dumps True dt)) kvs)) = Inr kvs"
    unfolding map_map
  proof (rule sequence_map_id)
    fix kv assume mem: "kv \<in> set kvs"
    obtain k v where kv: "kv = (k, v)" by (cases kv)
    from JDict.prems mem kv have "plain_json v" by (force simp: list_all_iff)
    with JDict.IH[of kv v] mem kv have "json_dumps True dt v = Inr v" by simp
    then show "(keyed \<circ> map_prod id (json_dumps True dt)) kv = Inr kv"
      using kv by simp
  qed
  then show ?case by simp
qed auto


lemma sequence_map_cases:
  "(\<And>x. x \<in> set xs \<Longrightarrow> f x = Inr x \<or> f x = Inl e)
   \<Longrightarrow> sequence (map f xs) = Inr xs \<or> sequence (map f xs) = Inl e"
proof (induction xs)
  case Nil
  then show ?case by simp
next
  case (Cons x xs)
  then have hd: "f x = Inr x \<or> f x = Inl e" and
    tl: "sequence (map f xs) = Inr xs \<or> sequence (map f xs) = Inl e"
    by auto
  then show ?case by auto
qed

lemma json_dumps_plain_cases:
  "plain_json v \<Longrightarrow>
     json_dumps False dt v = Inr v \<or> json_dumps False dt v = Inl (Exn ValueError out_of_range)"
proof (induction v)
  case (JFloat f)
  then show ?case by (cases f) auto
next
  case (JList xs)
  then have "sequence (map (json_dumps False dt) xs) = Inr xs
      \<or> sequence (map (json_dumps False dt) xs) = Inl (Exn ValueError out_of_range)"
    by (intro sequence_map_cases) (auto simp: list_all_iff)
  then show ?case by auto
next
  case (JDict kvs)
  have "sequence (map keyed (map (map_prod id (json_dumps False dt)) kvs)) = Inr kvs
      \<or> sequence (map keyed (map (map_prod id (json_dumps False dt)) kvs))
          = Inl (Exn ValueError out_of_range)"
    unfolding map_map
  proof (rule sequence_map_cases)
    fix kv assume mem: "kv \<in> set kvs"
    obtain k v where kv: "kv = (k, v)" by (cases kv)
    from JDict.prems mem kv have "plain_json v" by (force simp: list_all_iff)
    with JDict.IH[of kv v] mem kv
    have "json_dumps False dt v = Inr v
        \<or> json_dumps False dt v = Inl (Exn ValueError out_of_range)" by simp
    then show "(keyed \<circ> map_prod id (json_dumps False dt)) kv = Inr kv
        \<or> (keyed \<circ> map_prod id (json_dumps False dt)) kv = Inl (Exn ValueError out_of_range)"
      using kv by auto
  qed
  then show ?case by auto
qed auto

lemma json_dumps_plain_Inr:
  assumes "plain_json v" and "json_dumps a dt v = Inr w"
  shows "w = v"
proof (cases a)
  case True
  with assms json_dumps_plain[of v dt] show ?thesis by simp
next
  case False
  with assms json_dumps_plain_cases[of v dt] show ?thesis by auto
qed

lemma sequence_keyed_lookup:
  "sequence (map keyed (map (map_prod id f) kvs)) = Inr ws \<Longrightarrow> map_of kvs k = Some v
   \<Longrightarrow> \<exists>w. map_of ws k = Some w \<and> f v = Inr w"
proof (induction kvs arbitrary: ws)
  case Nil
  then show ?case by simp
next
  case (Cons kv kvs)
  obtain k' v' where kv: "kv = (k', v')" by (cases kv)
  from Cons.prems(1) kv obtain w' ws' where
    w': "f v' = Inr w'" and ws': "sequence (map keyed (map (map_prod id f) kvs)) = Inr ws'"
    and ws: "ws = (k', w') # ws'"
    by (cases "f v'") (auto simp: id_def split: sum.splits)
  show ?case
  proof (cases "k' = k")
    case True
    with Cons.prems(2) kv w' ws show ?thesis by simp
  next
    case False
    with Cons.prems(2) kv have "map_of kvs k = Some v" by simp
    from Cons.IH[OF ws' this] False ws show ?thesis by simp
  qed
qed

lemma json_dumps_dict_id:
  assumes "json_dumps a dt (JDict kvs) = Inr w" and "map_of kvs ''id'' = Some i"
    and "plain_json i"
  shows "carries_id i (Text w)"
proof -
  from assms(1) obtain ws where
    ws: "sequence (map keyed (map (map_prod id (json_dumps a dt)) kvs)) = Inr ws"
    and w: "w = JDict ws"
    by (auto split: sum.splits)
  from sequence_keyed_lookup[OF ws assms(2)] obtain i' where
    "map_of ws ''id'' = Some i'" and "json_dumps a dt i = Inr i'" by blast
  with json_dumps_plain_Inr[OF assms(3)] w show ?thesis by simp
qed

section \<open>Responses\<close>

lemma message_to_json_error_exact:
  "json_dumps False True i = Inr w \<Longrightarrow>
   message_to_json i (make_error_message i s) = Inr (JDict [(''id'', w), (''error'', JStr s)])"
  by (simp add: message_to_json_def make_error_message_def)

lemma message_to_json_result_exact:
  "json_dumps False True i = Inr w \<Longrightarrow> json_dumps False True r = Inr v \<Longrightarrow>
   message_to_json i (make_message i r) = Inr (JDict [(''id'', w), (''data'', v)])"
  by (simp add: message_to_json_def make_message_def)

lemma plain_error_message: "plain_json i \<Longrightarrow> plain_json (JDict (make_error_message i s))"
  by (simp add: make_error_message_def)

lemma message_to_json_error:
  assumes "plain_json i"
  shows "\<exists>t. message_to_json i (make_error_message i s) = Inr (JDict (make_error_message i t))"
proof -
  from json_dumps_plain_cases[OF plain_error_message[OF assms, of s], of True]
  show ?thesis
  proof
    assume "json_dumps False True (JDict (make_error_message i s))
              = Inr (JDict (make_error_message i s))"
    then show ?thesis by (auto simp: message_to_json_def)
  next
    assume "json_dumps False True (JDict (make_error_message i s))
              = Inl (Exn ValueError out_of_range)"
    moreover have "json_dumps True False
        (JDict (make_error_message i (''JSON serialization error: '' @ nan_text)))
        = Inr (JDict (make_error_message i (''JSON serialization error: '' @ nan_text)))"
      by (rule json_dumps_plain[OF plain_error_message[OF assms]])
    ultimately show ?thesis by (auto simp: message_to_json_def Let_def)
  qed
qed

lemma message_to_json_carries:
  assumes "plain_json i" and "map_of message ''id'' = Some i"
    and "message_to_json i message = Inr w"
  shows "carries_id i (Text w)"
proof (cases "json_dumps False True (JDict message)")
  case (Inr w')
  with assms(3) have "w' = w" by (simp add: message_to_json_def)
  with Inr json_dumps_dict_id[OF _ assms(2) assms(1)] show ?thesis by blast
next
  case (Inl e)
  with assms(3) obtain t where
    "json_dumps True False (JDict (make_error_message i t)) = Inr w"
    by (auto simp: message_to_json_def Let_def split: if_splits)
  then show ?thesis
    by (rule json_dumps_dict_id) (simp_all add: make_error_message_def assms(1))
qed

lemma post_error_ok:
  assumes "subscript msg ''id'' = Inr i" and "plain_json i"
  shows "\<exists>t. post_error msg s st = (Inr (), post (Text (JDict (make_error_message i t))) st)"
  using assms message_to_json_error[OF assms(2), of s]
  by (auto simp: post_error_def post_message_def)

lemma carries_error [simp]: "carries_id i (Text (JDict (make_error_message i t)))"
  by (simp add: make_error_message_def)

lemma post_result_cases:
  assumes "subscript msg ''id'' = Inr i" and "plain_json i"
    and "post_result msg r st = (res, st')"
  shows "case res of Inl e \<Rightarrow> st' = st
         | Inr u \<Rightarrow> \<exists>w. st' = post (Text w) st \<and> carries_id i (Text w)"
proof (cases "message_to_json i (make_message i r)")
  case (Inl e)
  with assms show ?thesis by (auto simp: post_result_def post_message_def)
next
  case (Inr w)
  from message_to_json_carries[OF assms(2) _ Inr] have "carries_id i (Text w)"
    by (simp add: make_message_def)
  with Inr assms show ?thesis by (auto simp: post_result_def post_message_def)
qed

lemma process_bytes_cases:
  assumes "subscript msg ''id'' = Inr i" and "plain_json i"
    and "process_bytes b msg st = (res, st')"
  shows "case res of Inl e \<Rightarrow> st' = st
         | Inr u \<Rightarrow> \<exists>w. st' = post (Binary b) (post (Text w) st) \<and> carries_id i (Text w)"
proof (cases "json_dumps True True (JDict (AList.update ''is_transferable'' (JBool True) msg))")
  case (Inl e)
  with assms(3) show ?thesis by (auto simp: process_bytes_def Let_def)
next
  case (Inr w)
  from assms(1) have "map_of (AList.update ''is_transferable'' (JBool True) msg) ''id'' = Some i"
    by (simp add: subscript_Inr update_conv')
  from json_dumps_dict_id[OF Inr this assms(2)] Inr assms(3) show ?thesis
    by (auto simp: process_bytes_def Let_def)
qed

section \<open>What every step leaves in place\<close>

lemma changes_refl [simp]: "changes tbl vdel st st"
  by (simp add: changes_def)

lemma changes_trans:
  assumes "changes tbl vdel st st1" and "changes tbl vdel st1 st2"
  shows "changes tbl vdel st st2"
proof -
  from assms have l: "lock st2 = lock st"
    by (simp add: changes_def)
  from assms obtain fs fs' where "posted st2 = posted st @ (fs @ fs')"
    by (auto simp: changes_def)
  then have p: "\<exists>fs. posted st2 = posted st @ fs" by blast
  from assms obtain cs cs' where "trace st2 = trace st @ (cs @ cs')"
    and "list_all (\<lambda>c. \<not> deletes_table c) (cs @ cs')"
    by (auto simp: changes_def)
  then have t: "\<exists>cs. trace st2 = trace st @ cs \<and> list_all (\<lambda>c. \<not> deletes_table c) cs"
    by blast
  have tb: "if tbl then fst ` set (tables st) \<subseteq> fst ` set (tables st2)
            else tables st2 = tables st"
  proof (cases tbl)
    case True
    with assms have "fst ` set (tables st) \<subseteq> fst ` set (tables st1)"
      "fst ` set (tables st1) \<subseteq> fst ` set (tables st2)"
      by (simp_all add: changes_def)
    then have "fst ` set (tables st) \<subseteq> fst ` set (tables st2)" by (rule subset_trans)
    with True show ?thesis by simp
  next
    case False
    with assms show ?thesis by (simp add: changes_def)
  qed
  have v: "vdel \<or> fst ` set (views st) \<subseteq> fst ` set (views st2)"
  proof (cases vdel)
    case True
    then show ?thesis by simp
  next
    case False
    with assms have "fst ` set (views st) \<subseteq> fst ` set (views st1)"
      "fst ` set (views st1) \<subseteq> fst ` set (views st2)"
      by (simp_all add: changes_def)
    then have "fst ` set (views st) \<subseteq> fst ` set (views st2)" by (rule subset_trans)
    then show ?thesis by simp
  qed
  from l p t tb v show ?thesis unfolding changes_def by blast
qed

lemma changes_weaken:
  "changes tbl vdel st st' \<Longrightarrow> (tbl \<longrightarrow> tbl') \<Longrightarrow> (vdel \<longrightarrow> vdel') \<Longrightarrow>
   changes tbl' vdel' st st'"
  by (auto simp: changes_def split: if_splits)

lemma steadyD: "steady tbl vdel m \<Longrightarrow> m st = (r, st') \<Longrightarrow> changes tbl vdel st st'"
  by (auto simp: steady_def dest: spec[of _ st])

lemma steady_ret [simp]: "steady tbl vdel (ret r)"
  by (simp add: steady_def)

lemma steady_and_then:
  assumes "steady tbl vdel m" and "\<And>x. steady tbl vdel (f x)"
  shows "steady tbl vdel (and_then m f)"
  unfolding steady_def
proof
  fix st
  obtain r st1 where m: "m st = (r, st1)" by (cases "m st")
  from steadyD[OF assms(1) m] have c1: "changes tbl vdel st st1" .
  show "changes tbl vdel st (snd (and_then m f st))"
  proof (cases r)
    case (Inl e)
    with m c1 show ?thesis by (simp add: and_then_def)
  next
    case (Inr x)
    obtain r' st2 where f: "f x st1 = (r', st2)" by (cases "f x st1")
    from steadyD[OF assms(2) f] c1 have "changes tbl vdel st st2"
      by (blast intro: changes_trans)
    with m Inr f show ?thesis by (simp add: and_then_def)
  qed
qed

lemma steady_catch:
  assumes "steady tbl vdel m" and "\<And>e. steady tbl vdel (h e)"
  shows "steady tbl vdel (catch m h)"
  unfolding steady_def
proof
  fix st
  obtain r st1 where m: "m st = (r, st1)" by (cases "m st")
  from steadyD[OF assms(1) m] have c1: "changes tbl vdel st st1" .
  show "changes tbl vdel st (snd (catch m h st))"
  proof (cases r)
    case (Inr x)
    with m c1 show ?thesis by (simp add: catch_def)
  next
    case (Inl e)
    obtain r' st2 where h: "h e st1 = (r', st2)" by (cases "h e st1")
    from steadyD[OF assms(2) h] c1 have "changes tbl vdel st st2"
      by (blast intro: changes_trans)
    with m Inl h show ?thesis by (simp add: catch_def)
  qed
qed

lemma steady_post [simp]: "steady tbl vdel (update_state (post f))"
  by (simp add: steady_def changes_def)

lemma steady_engine_call:
  "\<not> deletes_table c \<Longrightarrow> steady tbl vdel (engine_call rt c)"
  by (simp add: steady_def changes_def engine_call_def)

lemma steady_engine_new:
  "\<not> deletes_table c \<Longrightarrow> steady tbl vdel (engine_new rt c)"
  by (simp add: steady_def changes_def engine_new_def)

lemma steady_post_message [simp]: "steady tbl vdel (post_message i message)"
  unfolding post_message_def by (intro steady_and_then) simp_all

lemma steady_post_error [simp]: "steady tbl vdel (post_error msg s)"
  unfolding post_error_def by (intro steady_and_then) simp_all

lemma steady_post_result [simp]: "steady tbl vdel (post_result msg v)"
  unfolding post_result_def by (intro steady_and_then) simp_all

lemma steady_process_bytes [simp]: "steady tbl vdel (process_bytes b msg)"
  unfolding process_bytes_def by (intro steady_and_then) simp_all

lemma steady_deliver [simp]: "steady tbl vdel (deliver msg m v)"
  by (simp add: deliver_def split: jv.split)

lemma steady_calls [simp]:
  "m \<noteq> ''delete'' \<Longrightarrow> steady tbl vdel (call_keywords rt h m args)"
  "m \<noteq> ''delete'' \<Longrightarrow> steady tbl vdel (call_data_options rt h m args)"
  "m \<noteq> ''delete'' \<Longrightarrow> steady tbl vdel (call_positional_keywords rt msg h m args)"
  "m \<noteq> ''delete'' \<Longrightarrow> steady tbl vdel (call_positional rt h m args)"
  unfolding call_keywords_def call_data_options_def call_positional_keywords_def
    call_positional_def
  by (intro steady_and_then steady_ret steady_engine_call; simp)+

lemma steady_invoke [simp]: "steady tbl vdel (invoke rt msg h m args)"
  by (auto simp: invoke_def starts_with_def)

lemma steady_view_item [simp]: "steady tbl vdel (view_item rt name)"
  by (simp add: steady_def view_item_def)

lemma steady_pop_view [simp]: "steady tbl True (update_state (pop_view name))"
  by (simp add: steady_def changes_def pop_view_def)

lemma steady_delete_view [simp]: "steady tbl True (delete_view rt name)"
  unfolding delete_view_def
  by (intro steady_and_then steady_engine_call) simp_all

lemma steady_register [simp]:
  "steady tbl vdel (update_state (register_callback msg client_id cb))"
  by (simp add: steady_def changes_def register_callback_def add_callback_def)

lemma steady_unregister [simp]: "steady tbl vdel (update_state (unregister_callback msg))"
  by (simp add: steady_def changes_def unregister_callback_def remove_callbacks_def)

lemma steady_subscribe_call [simp]: "steady tbl vdel (subscribe_call rt msg h m cb)"
  unfolding subscribe_call_def
  by (auto intro!: steady_and_then steady_engine_call)

lemma steady_subscribe_body [simp]: "steady tbl vdel (subscribe_body rt msg h client_id)"
  unfolding subscribe_body_def
  by (auto intro!: steady_and_then split: jv.split)

lemma steady_process_subscribe [simp]:
  "steady tbl vdel (process_subscribe rt msg h client_id)"
  unfolding process_subscribe_def by (intro steady_catch) simp_all

lemma steady_table_get [simp]: "steady tbl vdel (table_get name)"
  by (simp add: steady_def table_get_def)

lemma steady_view_get [simp]: "steady tbl vdel (view_get name)"
  by (simp add: steady_def view_get_def)

lemma steady_table_item [simp]: "steady tbl vdel (table_item rt name)"
  by (simp add: steady_def table_item_def)

lemma steady_resolve [simp]: "steady tbl vdel (resolve msg cmd name)"
  unfolding resolve_def by (auto intro!: steady_and_then)

lemma steady_plain_call_delete: "steady tbl True (plain_call rt msg cmd name h)"
  unfolding plain_call_def
  by (auto intro!: steady_and_then split: jv.split)

lemma steady_plain_call:
  "\<not> (subscript msg ''method'' = Inr (JStr ''delete'') \<and> cmd = JStr ''view_method'')
   \<Longrightarrow> steady tbl vdel (plain_call rt msg cmd name h)"
  unfolding plain_call_def
  by (cases "subscript msg ''method''") (auto intro!: steady_and_then split: jv.split)

lemma steady_method_call_body:
  "vdel \<or> \<not> (subscript msg ''method'' = Inr (JStr ''delete'') \<and> cmd = JStr ''view_method'')
   \<Longrightarrow> steady tbl vdel (method_call_body rt msg cmd name h client_id)"
  unfolding method_call_body_def
  by (cases vdel) (auto intro: steady_plain_call steady_plain_call_delete)

lemma steady_process_method_call:
  "vdel \<or> \<not> (subscript msg ''method'' = Inr (JStr ''delete'') \<and>
                 subscript msg ''cmd'' = Inr (JStr ''view_method''))
   \<Longrightarrow> steady tbl vdel (process_method_call rt msg client_id)"
  unfolding process_method_call_def
  by (cases "subscript msg ''cmd''")
     (auto intro!: steady_and_then steady_catch steady_method_call_body)

lemma steady_tables_update [simp]:
  "steady True vdel (update_state (\<lambda>st. st\<lparr>tables := AList.update name h (tables st)\<rparr>))"
  by (auto simp: steady_def changes_def dom_update)

lemma steady_views_update [simp]:
  "steady tbl vdel (update_state (\<lambda>st. st\<lparr>views := AList.update name vc (views st)\<rparr>))"
  by (auto simp: steady_def changes_def dom_update)

lemma steady_set_table [simp]: "steady True vdel (set_table msg h)"
  unfolding set_table_def by (intro steady_and_then) simp_all

lemma steady_set_view [simp]: "steady tbl vdel (set_view msg v client_id)"
  unfolding set_view_def by (intro steady_and_then) simp_all

lemma steady_create_table [simp]: "steady True vdel (create_table rt msg)"
  unfolding create_table_def
  by (intro steady_and_then steady_engine_new) simp_all

lemma steady_table_command [simp]: "steady True vdel (table_command rt msg)"
  unfolding table_command_def by (intro steady_catch) simp_all

lemma steady_view_command [simp]: "steady tbl vdel (view_command rt msg client_id)"
  unfolding view_command_def
  by (intro steady_and_then steady_engine_new) simp_all

lemma steady_route:
  assumes "tbl \<or> cmd \<noteq> JStr ''table''"
    and "vdel \<or> \<not> (subscript msg ''method'' = Inr (JStr ''delete'') \<and>
                 subscript msg ''cmd'' = Inr (JStr ''view_method''))"
  shows "steady tbl vdel (route rt cmd msg client_id)"
proof (cases tbl)
  case True
  with assms(2) show ?thesis
    by (auto simp: route_def intro: steady_process_method_call)
next
  case False
  with assms show ?thesis
    by (auto simp: route_def intro: steady_process_method_call)
qed

lemma steady_check_lock [simp]: "steady tbl vdel (check_lock msg)"
  by (simp add: steady_def check_lock_def)

lemma steady_deny [simp]: "steady tbl vdel (deny msg)"
  unfolding deny_def by (intro steady_and_then) simp_all

lemma steady_process_message:
  assumes "tbl \<or> subscript msg ''cmd'' \<noteq> Inr (JStr ''table'')"
    and "vdel \<or> \<not> (subscript msg ''method'' = Inr (JStr ''delete'') \<and>
                 subscript msg ''cmd'' = Inr (JStr ''view_method''))"
  shows "steady tbl vdel (process_message rt msg client_id)"
proof (cases "subscript msg ''cmd''")
  case (Inl e)
  then show ?thesis by (simp add: process_message_def)
next
  case (Inr cmd)
  with assms have "steady tbl vdel (route rt cmd msg client_id)"
    by (intro steady_route) auto
  with Inr show ?thesis
    by (auto simp: process_message_def intro!: steady_and_then steady_catch)
qed

lemma steady_process: "steady True True (process rt raw client_id)"
  by (auto simp: process_def process_decoded_def split: jv.split
      intro!: steady_and_then steady_process_message)

lemma changes_new_calls:
  "changes tbl vdel st st' \<Longrightarrow>
   list_all (\<lambda>c. \<not> deletes_table c) (drop (length (trace st)) (trace st'))"
  by (auto simp: changes_def)

section \<open>Method calls on a registered handle\<close>

lemma resolve_registered:
  "hashable name \<Longrightarrow> registered st cmd name = Some h \<Longrightarrow>
   resolve msg cmd name st = (Inr h, st)"
  by (auto simp: registered_def resolve_def table_get_def view_get_def and_then_apply
      split: if_splits option.splits)

lemma method_call_registered:
  assumes "subscript msg ''cmd'' = Inr cmd" and "subscript msg ''name'' = Inr name"
    and "hashable name" and "registered st cmd name = Some h"
  shows "process_method_call rt msg client_id st =
     catch (method_call_body rt msg cmd name h client_id)
       (\<lambda>error. post_error msg (exn_str error)) st"
  using assms by (simp add: process_method_call_def and_then_Inr[OF resolve_registered])

lemma options_of_list:
  "options_of (JList (data # rest)) = Inr (keyword_options rest)"
  by (cases rest rule: keyword_options.cases) (auto simp: options_of_def)

lemma getattr_engine_object: "engine_object h \<Longrightarrow> getattr h m = Inr ()"
  by (cases h) auto

lemma shape_args_plain:
  "m \<notin> set schema_methods \<Longrightarrow> \<not> starts_with ''to_'' m \<Longrightarrow>
   shape_args msg (JStr m) = Inr (dict_get msg ''args'' (JList []))"
  by (auto simp: shape_args_def)

lemma invoke_update:
  assumes "m = ''update'' \<or> m = ''remove''" and "engine_object h"
  shows "invoke rt msg h m (JList (data # rest)) =
           engine_call rt (Method h m [data] (keyword_options rest))"
  using assms
  by (auto simp: invoke_def call_data_options_def starts_with_def options_of_list
      getattr_engine_object)

lemma body_update:
  assumes "dict_get msg ''subscribe'' (JBool False) \<noteq> JBool True"
    and "subscript msg ''method'' = Inr (JStr m)" and "m = ''update'' \<or> m = ''remove''"
    and "dict_get msg ''args'' (JList []) = JList (data # rest)" and "engine_object h"
  shows "method_call_body rt msg cmd name h client_id =
    and_then (engine_call rt (Method h m [data] (keyword_options rest))) (deliver msg m)"
proof -
  from assms(3) have "m \<notin> set schema_methods" "\<not> starts_with ''to_'' m" "m \<noteq> ''delete''"
    by (auto simp: schema_methods_def starts_with_def)
  with assms show ?thesis
    by (simp add: method_call_body_def plain_call_def shape_args_plain invoke_update)
qed

lemma posts_onlyD:
  "posts_only m \<Longrightarrow> m st = (r, st') \<Longrightarrow> \<exists>fs. st' = st\<lparr>posted := posted st @ fs\<rparr>"
  unfolding posts_only_def by (drule spec[of _ st]) simp

lemma posts_only_ret [simp]: "posts_only (ret r)"
  by (auto simp: posts_only_def intro: exI[of _ "[]"])

lemma posts_only_post [simp]: "posts_only (update_state (post f))"
  by (auto simp: posts_only_def post_def)

lemma posts_only_and_then:
  assumes "posts_only m" and "\<And>x. posts_only (f x)"
  shows "posts_only (and_then m f)"
  unfolding posts_only_def
proof
  fix st
  obtain r st1 where m: "m st = (r, st1)" by (cases "m st")
  from posts_onlyD[OF assms(1) m] obtain fs where st1: "st1 = st\<lparr>posted := posted st @ fs\<rparr>" ..
  show "\<exists>fs. snd (and_then m f st) = st\<lparr>posted := posted st @ fs\<rparr>"
  proof (cases r)
    case (Inl e)
    with m st1 show ?thesis by (auto simp: and_then_def)
  next
    case (Inr x)
    obtain r' st2 where f: "f x st1 = (r', st2)" by (cases "f x st1")
    from posts_onlyD[OF assms(2) f] obtain fs' where
      "st2 = st1\<lparr>posted := posted st1 @ fs'\<rparr>" ..
    with st1 have "st2 = st\<lparr>posted := posted st @ (fs @ fs')\<rparr>" by simp
    with m Inr f show ?thesis by (auto simp: and_then_def simp del: append_assoc)
  qed
qed

lemma posts_only_catch:
  assumes "posts_only m" and "\<And>e. posts_only (h e)"
  shows "posts_only (catch m h)"
  unfolding posts_only_def
proof
  fix st
  obtain r st1 where m: "m st = (r, st1)" by (cases "m st")
  from posts_onlyD[OF assms(1) m] obtain fs where st1: "st1 = st\<lparr>posted := posted st @ fs\<rparr>" ..
  show "\<exists>fs. snd (catch m h st) = st\<lparr>posted := posted st @ fs\<rparr>"
  proof (cases r)
    case (Inr x)
    with m st1 show ?thesis by (auto simp: catch_def)
  next
    case (Inl e)
    obtain r' st2 where h: "h e st1 = (r', st2)" by (cases "h e st1")
    from posts_onlyD[OF assms(2) h] obtain fs' where
      "st2 = st1\<lparr>posted := posted st1 @ fs'\<rparr>" ..
    with st1 have "st2 = st\<lparr>posted := posted st @ (fs @ fs')\<rparr>" by simp
    with m Inl h show ?thesis by (auto simp: catch_def simp del: append_assoc)
  qed
qed

lemma posts_only_post_message [simp]: "posts_only (post_message i message)"
  unfolding post_message_def by (intro posts_only_and_then) simp_all

lemma posts_only_post_error [simp]: "posts_only (post_error msg s)"
  unfolding post_error_def by (intro posts_only_and_then) simp_all

lemma posts_only_post_result [simp]: "posts_only (post_result msg v)"
  unfolding post_result_def by (intro posts_only_and_then) simp_all

lemma posts_only_process_bytes [simp]: "posts_only (process_bytes b msg)"
  unfolding process_bytes_def by (intro posts_only_and_then) simp_all

lemma posts_only_deliver [simp]: "posts_only (deliver msg m v)"
  by (simp add: deliver_def split: jv.split)

lemma posts_only_trace: "posts_only m \<Longrightarrow> trace (snd (m st)) = trace st"
  by (cases "m st") (auto dest: posts_onlyD)

lemma calls_posted:
  "posted (snd (call_keywords rt h m args st)) = posted st"
  "posted (snd (call_data_options rt h m args st)) = posted st"
  "posted (snd (call_positional_keywords rt msg h m args st)) = posted st"
  "posted (snd (call_positional rt h m args st)) = posted st"
  by (simp_all add: call_keywords_def call_data_options_def call_positional_keywords_def
      call_positional_def and_then_def engine_call_def split: sum.split)

lemma invoke_posted: "posted (snd (invoke rt msg h m args st)) = posted st"
  by (simp add: invoke_def calls_posted)

lemma post_result_exact:
  "subscript msg ''id'' = Inr i \<Longrightarrow> json_dumps False True i = Inr wi \<Longrightarrow>
   json_dumps False True v = Inr wv \<Longrightarrow>
   post_result msg v st = (Inr (), post (Text (JDict [(''id'', wi), (''data'', wv)])) st)"
  by (simp add: post_result_def post_message_def message_to_json_result_exact)

lemma texts_onlyD:
  "texts_only m \<Longrightarrow> m st = (r, st') \<Longrightarrow>
   \<exists>fs. posted st' = posted st @ fs \<and> list_all is_text fs"
  unfolding texts_only_def by (drule spec[of _ st]) simp

lemma texts_only_ret [simp]: "texts_only (ret r)"
  by (simp add: texts_only_def)

lemma texts_only_post [simp]: "texts_only (update_state (post (Text w)))"
  by (simp add: texts_only_def)

lemma texts_only_and_then:
  assumes "texts_only m" and "\<And>x. texts_only (f x)"
  shows "texts_only (and_then m f)"
  unfolding texts_only_def
proof
  fix st
  obtain r st1 where m: "m st = (r, st1)" by (cases "m st")
  from texts_onlyD[OF assms(1) m] obtain fs where
    st1: "posted st1 = posted st @ fs" "list_all is_text fs" by blast
  show "\<exists>fs. posted (snd (and_then m f st)) = posted st @ fs \<and> list_all is_text fs"
  proof (cases r)
    case (Inl e)
    with m st1 show ?thesis by (auto simp: and_then_def)
  next
    case (Inr x)
    obtain r' st2 where f: "f x st1 = (r', st2)" by (cases "f x st1")
    from texts_onlyD[OF assms(2) f] obtain fs' where
      "posted st2 = posted st1 @ fs'" "list_all is_text fs'" by blast
    with st1 have "posted st2 = posted st @ (fs @ fs')" "list_all is_text (fs @ fs')"
      by simp_all
    with m Inr f show ?thesis by (auto simp: and_then_def simp del: append_assoc)
  qed
qed

lemma texts_only_catch:
  assumes "texts_only m" and "\<And>e. texts_only (h e)"
  shows "texts_only (catch m h)"
  unfolding texts_only_def
proof
  fix st
  obtain r st1 where m: "m st = (r, st1)" by (cases "m st")
  from texts_onlyD[OF assms(1) m] obtain fs where
    st1: "posted st1 = posted st @ fs" "list_all is_text fs" by blast
  show "\<exists>fs. posted (snd (catch m h st)) = posted st @ fs \<and> list_all is_text fs"
  proof (cases r)
    case (Inr x)
    with m st1 show ?thesis by (auto simp: catch_def)
  next
    case (Inl e)
    obtain r' st2 where h: "h e st1 = (r', st2)" by (cases "h e st1")
    from texts_onlyD[OF assms(2) h] obtain fs' where
      "posted st2 = posted st1 @ fs'" "list_all is_text fs'" by blast
    with st1 have "posted st2 = posted st @ (fs @ fs')" "list_all is_text (fs @ fs')"
      by simp_all
    with m Inl h show ?thesis by (auto simp: catch_def simp del: append_assoc)
  qed
qed

lemma texts_only_post_message [simp]: "texts_only (post_message i message)"
  unfolding post_message_def by (intro texts_only_and_then) simp_all

lemma texts_only_post_error [simp]: "texts_only (post_error msg s)"
  unfolding post_error_def by (intro texts_only_and_then) simp_all

lemma texts_only_post_result [simp]: "texts_only (post_result msg v)"
  unfolding post_result_def by (intro texts_only_and_then) simp_all

lemma body_invoke:
  assumes "dict_get msg ''subscribe'' (JBool False) \<noteq> JBool True"
    and "subscript msg ''method'' = Inr (JStr m)"
    and "\<not> (m = ''delete'' \<and> cmd = JStr ''view_method'')"
    and "shape_args msg (JStr m) = Inr args"
  shows "method_call_body rt msg cmd name h client_id =
           and_then (invoke rt msg h m args) (deliver msg m)"
  using assms by (auto simp: method_call_body_def plain_call_def)

section \<open>Calls on a handle that is None\<close>

lemma and_then_ret:
  "and_then (ret r) f = (case r of Inl e \<Rightarrow> ret (Inl e) | Inr x \<Rightarrow> f x)"
  by (cases r) simp_all

lemma calls_none:
  assumes "public_name m"
  shows "call_keywords rt NoneType m args st = (Inl (no_attribute ''NoneType'' m), st)"
    and "call_positional_keywords rt msg NoneType m args st = (Inl (no_attribute ''NoneType'' m), st)"
    and "call_positional rt NoneType m args st = (Inl (no_attribute ''NoneType'' m), st)"
    and "\<exists>e. call_data_options rt NoneType m args st = (Inl e, st)"
  using assms
  by (simp_all add: call_keywords_def call_positional_keywords_def call_positional_def
      call_data_options_def and_then_ret split: sum.split)

lemma invoke_none:
  "public_name m \<Longrightarrow> \<exists>e. invoke rt msg NoneType m args st = (Inl e, st)"
  by (simp add: invoke_def calls_none)

lemma plain_call_none:
  assumes "cmd \<noteq> JStr ''view_method''"
    and "\<forall>m. subscript msg ''method'' = Inr (JStr m) \<longrightarrow> public_name m"
  shows "\<exists>e. plain_call rt msg cmd name NoneType st = (Inl e, st)"
proof (cases "subscript msg ''method''")
  case (Inl e)
  then show ?thesis by (simp add: plain_call_def)
next
  case mth: (Inr mv)
  show ?thesis
  proof (cases "shape_args msg mv")
    case (Inl e)
    with mth show ?thesis by (simp add: plain_call_def)
  next
    case shaped: (Inr args)
    show ?thesis
    proof (cases "\<exists>m. mv = JStr m")
      case True
      then obtain m where m: "mv = JStr m" ..
      with assms(2) mth have "public_name m" by simp
      from invoke_none[OF this] obtain e where
        "invoke rt msg NoneType m args st = (Inl e, st)" ..
      with mth shaped m assms(1) show ?thesis
        by (simp add: plain_call_def and_then_def)
    next
      case False
      with mth shaped show ?thesis
        by (cases mv) (simp_all add: plain_call_def)
    qed
  qed
qed

lemma on_method_True: "on_method method = Inr True \<Longrightarrow> \<exists>s. method = JStr s \<and> take 2 s = ''on''"
  by (cases "method") (auto simp: on_method_def split: if_splits)

lemma on_public: "take 2 s = ''on'' \<Longrightarrow> public_name s"
  by (cases s) (auto simp: public_name_def)

lemma subscribe_call_none:
  "public_name m \<Longrightarrow> \<exists>e. subscribe_call rt msg NoneType m cb st = (Inl e, st)"
  by (cases "m = ''on_update''") (simp_all add: subscribe_call_def and_then_ret split: sum.split)

lemma subscribe_body_none:
  assumes "on_method (dict_get msg ''method'' JNull) \<noteq> Inr False"
  shows "\<exists>e st1. subscribe_body rt msg NoneType client_id st = (Inl e, st1) \<and>
           posted st1 = posted st \<and> trace st1 = trace st \<and> tables st1 = tables st \<and>
           views st1 = views st"
proof (cases "on_method (dict_get msg ''method'' JNull)")
  case (Inl e)
  then show ?thesis by (simp add: subscribe_body_def)
next
  case (Inr on)
  with assms have on: "on_method (dict_get msg ''method'' JNull) = Inr True" by simp
  from on_method_True[OF this] obtain s where
    s: "dict_get msg ''method'' JNull = JStr s" "take 2 s = ''on''" by blast
  let ?st1 = "register_callback msg client_id (Callback msg) st"
  from subscribe_call_none[OF on_public[OF s(2)]] obtain e where
    "subscribe_call rt msg NoneType s (Callback msg) ?st1 = (Inl e, ?st1)" ..
  with on s have "subscribe_body rt msg NoneType client_id st = (Inl e, ?st1)"
    by (simp add: subscribe_body_def)
  moreover have "posted ?st1 = posted st" "trace ?st1 = trace st" "tables ?st1 = tables st"
    "views ?st1 = views st"
    by (simp_all add: register_callback_def add_callback_def)
  ultimately show ?thesis by blast
qed

section \<open>Steps that answer the request\<close>

lemma silent_ret [simp]: "silent (ret r)"
  by (simp add: silent_def)

lemma silent_invoke [simp]: "silent (invoke rt msg h m args)"
  by (simp add: silent_def invoke_posted)

lemma answers_raise [simp]: "answers i (ret (Inl e))"
  by (simp add: answers_def)

lemma answers_Inl: "answers i m \<Longrightarrow> m st = (Inl e, st') \<Longrightarrow> posted st' = posted st"
  unfolding answers_def by (drule spec[of _ st]) simp

lemma answers_Inr:
  "answers i m \<Longrightarrow> m st = (Inr u, st') \<Longrightarrow>
   \<exists>f fs. posted st' = posted st @ f # fs \<and> carries_id i f"
  unfolding answers_def by (drule spec[of _ st]) simp

lemma answers_and_then:
  assumes "silent m" and "\<And>x. answers i (f x)"
  shows "answers i (and_then m f)"
  unfolding answers_def
proof
  fix st
  obtain r st1 where m: "m st = (r, st1)" by (cases "m st")
  with assms(1) have p1: "posted st1 = posted st"
    unfolding silent_def by (drule_tac spec[of _ st]) simp
  show "case and_then m f st of
        (Inl e, st') \<Rightarrow> posted st' = posted st
      | (Inr u, st') \<Rightarrow> (\<exists>f fs. posted st' = posted st @ f # fs \<and> carries_id i f)"
  proof (cases r)
    case (Inl e)
    with m p1 show ?thesis by (simp add: and_then_def)
  next
    case (Inr x)
    obtain r' st2 where f: "f x st1 = (r', st2)" by (cases "f x st1")
    show ?thesis
    proof (cases r')
      case (Inl e)
      with answers_Inl[OF assms(2)] f p1 m Inr show ?thesis by (simp add: and_then_def)
    next
      case inr: (Inr u)
      with answers_Inr[OF assms(2), of x st1 u st2] f p1 obtain g gs where
        "posted st2 = posted st @ g # gs" "carries_id i g" by auto
      with f m Inr inr show ?thesis by (auto simp: and_then_def)
    qed
  qed
qed

lemma answers_post_result:
  "subscript msg ''id'' = Inr i \<Longrightarrow> plain_json i \<Longrightarrow> answers i (post_result msg v)"
  unfolding answers_def
proof
  fix st
  assume a: "subscript msg ''id'' = Inr i" "plain_json i"
  obtain res st' where r: "post_result msg v st = (res, st')" by (cases "post_result msg v st")
  from post_result_cases[OF a r] r
  show "case post_result msg v st of
        (Inl e, st') \<Rightarrow> posted st' = posted st
      | (Inr u, st') \<Rightarrow> (\<exists>f fs. posted st' = posted st @ f # fs \<and> carries_id i f)"
    by (cases res) auto
qed

lemma answers_process_bytes:
  "subscript msg ''id'' = Inr i \<Longrightarrow> plain_json i \<Longrightarrow> answers i (process_bytes b msg)"
  unfolding answers_def
proof
  fix st
  assume a: "subscript msg ''id'' = Inr i" "plain_json i"
  obtain res st' where r: "process_bytes b msg st = (res, st')"
    by (cases "process_bytes b msg st")
  from process_bytes_cases[OF a r] r
  show "case process_bytes b msg st of
        (Inl e, st') \<Rightarrow> posted st' = posted st
      | (Inr u, st') \<Rightarrow> (\<exists>f fs. posted st' = posted st @ f # fs \<and> carries_id i f)"
    by (cases res) auto
qed

lemma answers_deliver:
  "subscript msg ''id'' = Inr i \<Longrightarrow> plain_json i \<Longrightarrow> answers i (deliver msg m v)"
  by (simp add: deliver_def answers_post_result answers_process_bytes split: jv.split)

lemma answers_plain_call:
  assumes "subscript msg ''id'' = Inr i" and "plain_json i"
    and "\<not> (subscript msg ''method'' = Inr (JStr ''delete'') \<and> cmd = JStr ''view_method'')"
  shows "answers i (plain_call rt msg cmd name h)"
proof (cases "subscript msg ''method''")
  case (Inl e)
  then show ?thesis by (simp add: plain_call_def del: ret_apply)
next
  case mth: (Inr mv)
  show ?thesis
  proof (cases "shape_args msg mv")
    case (Inl e)
    with mth show ?thesis by (simp add: plain_call_def del: ret_apply)
  next
    case shaped: (Inr args)
    show ?thesis
    proof (cases "\<exists>m. mv = JStr m")
      case True
      then obtain m where m: "mv = JStr m" ..
      with assms(3) mth have "\<not> (m = ''delete'' \<and> cmd = JStr ''view_method'')" by simp
      moreover have "answers i (and_then (invoke rt msg h m args) (deliver msg m))"
        by (intro answers_and_then answers_deliver assms(1,2)) simp
      ultimately show ?thesis
        using mth shaped m by (auto simp: plain_call_def simp del: ret_apply)
    next
      case False
      with mth shaped show ?thesis
        by (cases mv) (simp_all add: plain_call_def del: ret_apply)
    qed
  qed
qed

lemma answered_catch:
  assumes "subscript msg ''id'' = Inr i" and "plain_json i" and "answers i m"
  shows "\<exists>st' f fs. catch m (\<lambda>error. post_error msg (exn_str error)) st = (Inr (), st') \<and>
           posted st' = posted st @ f # fs \<and> carries_id i f"
proof -
  obtain r st1 where m: "m st = (r, st1)" by (cases "m st")
  show ?thesis
  proof (cases r)
    case (Inl e)
    from answers_Inl[OF assms(3)] m Inl have p: "posted st1 = posted st" by simp
    from post_error_ok[OF assms(1,2), of "exn_str e" st1] obtain t where
      "post_error msg (exn_str e) st1 = (Inr (), post (Text (JDict (make_error_message i t))) st1)"
      ..
    with m Inl p show ?thesis by (auto simp: catch_def make_error_message_def)
  next
    case (Inr u)
    from answers_Inr[OF assms(3)] m Inr obtain f fs where
      "posted st1 = posted st @ f # fs" "carries_id i f" by blast
    with m Inr show ?thesis by (auto simp: catch_def)
  qed
qed

lemma resolve_ok:
  assumes "subscript msg ''id'' = Inr i" and "plain_json i" and "hashable name"
  shows "\<exists>h st1. resolve msg cmd name st = (Inr h, st1) \<and>
           (posted st1 = posted st \<or> (\<exists>f. posted st1 = posted st @ [f] \<and> carries_id i f))"
proof (cases "cmd = JStr ''table_method''")
  case True
  with assms(3) show ?thesis by (simp add: resolve_def table_get_def)
next
  case False
  show ?thesis
  proof (cases "map_of (views st) name")
    case None
    from post_error_ok[OF assms(1,2), of "''View is not initialized''" st] obtain t where
      "post_error msg ''View is not initialized'' st =
         (Inr (), post (Text (JDict (make_error_message i t))) st)" ..
    with False None assms(3) show ?thesis
      by (auto simp: resolve_def view_get_def and_then_def make_error_message_def)
  next
    case (Some vc)
    with False assms(3) show ?thesis
      by (simp add: resolve_def view_get_def and_then_def)
  qed
qed

lemma method_call_answered:
  assumes "subscript msg ''id'' = Inr i" and "plain_json i"
    and "subscript msg ''cmd'' = Inr cmd" and "subscript msg ''name'' = Inr name"
    and "hashable name"
    and "dict_get msg ''subscribe'' (JBool False) \<noteq> JBool True"
    and "\<not> (subscript msg ''method'' = Inr (JStr ''delete'') \<and> cmd = JStr ''view_method'')"
  shows "\<exists>st' f fs. process_method_call rt msg client_id st = (Inr (), st') \<and>
           posted st' = posted st @ f # fs \<and> carries_id i f"
proof -
  from resolve_ok[OF assms(1,2,5), of cmd st] obtain h st1 where
    r: "resolve msg cmd name st = (Inr h, st1)"
    and p1: "posted st1 = posted st \<or> (\<exists>f. posted st1 = posted st @ [f] \<and> carries_id i f)"
    by blast
  have "answers i (method_call_body rt msg cmd name h client_id)"
    using assms(6) answers_plain_call[OF assms(1,2,7)] by (simp add: method_call_body_def)
  from answered_catch[OF assms(1,2) this, of st1] obtain st' f fs where
    c: "catch (method_call_body rt msg cmd name h client_id)
          (\<lambda>error. post_error msg (exn_str error)) st1 = (Inr (), st')"
    and p': "posted st' = posted st1 @ f # fs" "carries_id i f"
    by blast
  from assms(3,4) r c have "process_method_call rt msg client_id st = (Inr (), st')"
    by (simp add: process_method_call_def and_then_def)
  moreover from p1 p' have "\<exists>g gs. posted st' = posted st @ g # gs \<and> carries_id i g"
    by auto
  ultimately show ?thesis by blast
qed

lemma unlocked_route:
  assumes "subscript msg ''cmd'' = Inr cmd" and "is_locked_command st msg = Inr False"
    and "route rt cmd msg client_id st = (Inr u, st')"
  shows "process_message rt msg client_id st = (Inr u, st')"
  using assms by (simp add: process_message_def check_lock_def and_then_def catch_def)

lemma post_result_null:
  assumes "subscript msg ''id'' = Inr i" and "plain_json i"
  shows "\<exists>w. post_result msg JNull st = (Inr (), post (Text w) st) \<and> carries_id i (Text w)"
proof -
  have "plain_json (JDict (make_message i JNull))"
    using assms(2) by (simp add: make_message_def)
  from json_dumps_plain_cases[OF this, of True]
  have "\<exists>w. message_to_json i (make_message i JNull) = Inr w"
  proof
    assume "json_dumps False True (JDict (make_message i JNull))
              = Inr (JDict (make_message i JNull))"
    then show ?thesis by (simp add: message_to_json_def)
  next
    assume "json_dumps False True (JDict (make_message i JNull))
              = Inl (Exn ValueError out_of_range)"
    moreover have "json_dumps True False
        (JDict (make_error_message i (''JSON serialization error: '' @ nan_text)))
        = Inr (JDict (make_error_message i (''JSON serialization error: '' @ nan_text)))"
      by (rule json_dumps_plain[OF plain_error_message[OF assms(2)]])
    ultimately show ?thesis by (simp add: message_to_json_def Let_def)
  qed
  then obtain w where w: "message_to_json i (make_message i JNull) = Inr w" ..
  from message_to_json_carries[OF assms(2) _ w] have "carries_id i (Text w)"
    by (simp add: make_message_def)
  with w assms(1) show ?thesis by (auto simp: post_result_def post_message_def)
qed

lemma table_created:
  assumes "subscript msg ''args'' = Inr (JList (d # ds))"
    and "py_mapping (dict_get msg ''options'' (JDict [])) = Inr opts"
    and "engine rt (trace st) (Construct d opts) = Inr r"
    and "subscript msg ''name'' = Inr name" and "hashable name"
  shows "table_command rt msg st =
     (Inr (), st\<lparr>trace := trace st @ [Construct d opts],
                 tables := AList.update name (TableObj (length (trace st))) (tables st)\<rparr>)"
  using assms
  by (simp add: table_command_def create_table_def set_table_def engine_new_def
      and_then_def catch_def)

lemma view_created:
  assumes "subscript msg ''table_name'' = Inr tn" and "hashable tn"
    and "map_of (tables st) tn = Some t" and "engine_object t"
    and "py_mapping (dict_get msg ''config'' (JDict [])) = Inr config"
    and "engine rt (trace st) (Method t ''view'' [] config) = Inr r"
    and "subscript msg ''view_name'' = Inr vn" and "hashable vn"
  shows "view_command rt msg client_id st =
     (Inr (), st\<lparr>trace := trace st @ [Method t ''view'' [] config],
                 views := AList.update vn (length (trace st), client_id) (views st)\<rparr>)"
  using assms
  by (simp add: view_command_def table_item_def set_view_def engine_new_def
      and_then_def getattr_engine_object)

section \<open>The sample manager\<close>

text \<open>
  The sample manager is what the two creation requests of the specification's scenarios
  make of a new manager: table \<^verbatim>\<open>t\<close> from a schema, then view \<^verbatim>\<open>v\<close> of it for
  client \<^verbatim>\<open>c1\<close>. Neither request posts a frame.
\<close>

lemma with_table_and_view_reached:
  "snd (process quiet_runtime (JDict view_request) (Some ''c1'')
     (snd (process quiet_runtime (JDict table_request) None (new_manager False))))
   = with_table_and_view"
  by code_simp

section \<open>The lock gate\<close>

lemma post_error_exact:
  "subscript msg ''id'' = Inr i \<Longrightarrow> json_dumps False True i = Inr w \<Longrightarrow>
   post_error msg s st = (Inr (), post (Text (JDict [(''id'', w), (''error'', JStr s)])) st)"
  by (simp add: post_error_def post_message_def message_to_json_error_exact)

text \<open>
  Claim C2, as stated, fails: with the lock on, \<^verbatim>\<open>_is_locked_command\<close> also blocks a
  message whose method is named \<^verbatim>\<open>table\<close>, because the method is looked up in
  \<^verbatim>\<open>LOCKED_COMMANDS\<close>, the list that holds the command \<^verbatim>\<open>table\<close> too. The
  \<^verbatim>\<open>view_method\<close> call of a method \<^verbatim>\<open>table\<close> is blocked, and the specification's
  gate does not block it.
\<close>

theorem lock_gate_blocks_method_named_table:
  "is_locked_command (new_manager True) method_named_table = Inr True \<and>
   \<not> spec_is_blocked True (JStr ''view_method'') (JStr ''table'')"
  by code_simp

text \<open>
  Claim C2, amended. Without the lock the gate blocks nothing. With the lock it blocks
  exactly: the command \<^verbatim>\<open>table\<close>; a message, whatever its command, whose method is
  one of table, update, remove, replace, clear; and the \<^verbatim>\<open>table_method\<close> call of
  \<^verbatim>\<open>delete\<close>. The \<^verbatim>\<open>view_method\<close> call of \<^verbatim>\<open>delete\<close> is never blocked. A blocked
  message gets one response and nothing else happens: the manager is unchanged but for
  the posted frame, the access-denied error for the message id with the label
  \<^verbatim>\<open>cmd.method\<close> (or \<^verbatim>\<open>cmd\<close> when there is no method).
\<close>

theorem lock_gate:
  "(\<not> lock st \<longrightarrow> is_locked_command st msg = Inr False) \<and>
   (lock st \<longrightarrow> subscript msg ''cmd'' = Inr cmd \<longrightarrow>
      is_locked_command st msg =
        Inr (cmd = JStr ''table'' \<or> dict_get msg ''method'' JNull \<in> set LOCKED_COMMANDS \<or>
             (cmd = JStr ''table_method'' \<and> dict_get msg ''method'' JNull = JStr ''delete''))) \<and>
   (subscript msg ''cmd'' = Inr (JStr ''view_method'') \<longrightarrow>
      dict_get msg ''method'' JNull = JStr ''delete'' \<longrightarrow>
      is_locked_command st msg = Inr False) \<and>
   (is_locked_command st msg = Inr True \<longrightarrow> subscript msg ''cmd'' = Inr (JStr c) \<longrightarrow>
      subscript msg ''id'' = Inr i \<longrightarrow> json_dumps False True i = Inr w \<longrightarrow>
      (dict_get msg ''method'' JNull = JStr m \<longrightarrow>
         process_message rt msg client_id st =
           (Inr (), post (Text (JDict [(''id'', w),
              (''error'', JStr (access_denied (c @ ''.'' @ m)))])) st)) \<and>
      (dict_get msg ''method'' JNull = JNull \<longrightarrow>
         process_message rt msg client_id st =
           (Inr (), post (Text (JDict [(''id'', w),
              (''error'', JStr (access_denied c))])) st)))"
proof (intro conjI impI)
  assume "\<not> lock st"
  then show "is_locked_command st msg = Inr False"
    by (simp add: is_locked_command_def)
next
  assume "lock st" and "subscript msg ''cmd'' = Inr cmd"
  then show "is_locked_command st msg =
        Inr (cmd = JStr ''table'' \<or> dict_get msg ''method'' JNull \<in> set LOCKED_COMMANDS \<or>
             (cmd = JStr ''table_method'' \<and> dict_get msg ''method'' JNull = JStr ''delete''))"
    by (auto simp: is_locked_command_def Let_def)
next
  assume "subscript msg ''cmd'' = Inr (JStr ''view_method'')"
    and "dict_get msg ''method'' JNull = JStr ''delete''"
  then show "is_locked_command st msg = Inr False"
    by (simp add: is_locked_command_def Let_def LOCKED_COMMANDS_def)
next
  assume a: "is_locked_command st msg = Inr True" "subscript msg ''cmd'' = Inr (JStr c)"
    "subscript msg ''id'' = Inr i" "json_dumps False True i = Inr w"
    "dict_get msg ''method'' JNull = JStr m"
  then have "access_label msg = Inr (c @ ''.'' @ m)"
    by (simp add: access_label_def method_suffix_def)
  with a show "process_message rt msg client_id st =
      (Inr (), post (Text (JDict [(''id'', w),
         (''error'', JStr (access_denied (c @ ''.'' @ m)))])) st)"
    by (simp add: process_message_def check_lock_def deny_def and_then_apply post_error_exact)
next
  assume a: "is_locked_command st msg = Inr True" "subscript msg ''cmd'' = Inr (JStr c)"
    "subscript msg ''id'' = Inr i" "json_dumps False True i = Inr w"
    "dict_get msg ''method'' JNull = JNull"
  then have "access_label msg = Inr c"
    by (simp add: access_label_def method_suffix_def)
  with a show "process_message rt msg client_id st =
      (Inr (), post (Text (JDict [(''id'', w), (''error'', JStr (access_denied c))])) st)"
    by (simp add: process_message_def check_lock_def deny_def and_then_apply post_error_exact)
qed

text \<open>
  Witness for C2: the update of table \<^verbatim>\<open>t\<close> passes the gate of an unlocked manager
  and is blocked by a locked one, which answers with the access-denied error; so is the
  call of a method named \<^verbatim>\<open>table\<close>.
\<close>

theorem lock_gate_witness:
  "is_locked_command (new_manager False) update_request = Inr False \<and>
   is_locked_command (new_manager True) update_request = Inr True \<and>
   is_locked_command (new_manager True) method_named_table = Inr True \<and>
   process_message quiet_runtime update_request None (new_manager True) =
     (Inr (), post (Text (JDict [(''id'', JInt 4),
        (''error'', JStr ''`table_method.update` failed - access denied'')])) (new_manager True))"
proof -
  have l: "lock (new_manager True)" "\<not> lock (new_manager False)"
    by (simp_all add: new_manager_def)
  have c: "subscript update_request ''cmd'' = Inr (JStr ''table_method'')"
    "subscript method_named_table ''cmd'' = Inr (JStr ''view_method'')"
    "subscript update_request ''id'' = Inr (JInt 4)"
    "dict_get update_request ''method'' JNull = JStr ''update''"
    "dict_get method_named_table ''method'' JNull = JStr ''table''"
    by code_simp+
  have d: "json_dumps False True (JInt 4) = Inr (JInt 4)" by simp
  note g1 = lock_gate[of "new_manager False" update_request]
  note g2 = lock_gate[of "new_manager True" update_request "JStr ''table_method''"
      "''table_method''" "JInt 4" "JInt 4" "''update''" quiet_runtime None]
  note g3 = lock_gate[of "new_manager True" method_named_table "JStr ''view_method''"]
  from g1 l have 1: "is_locked_command (new_manager False) update_request = Inr False" by blast
  from g2 l c have 2: "is_locked_command (new_manager True) update_request = Inr True"
    by (simp add: LOCKED_COMMANDS_def)
  from g3 l c have 3: "is_locked_command (new_manager True) method_named_table = Inr True"
    by (simp add: LOCKED_COMMANDS_def)
  from g2 2 c d have 4: "process_message quiet_runtime update_request None (new_manager True) =
     (Inr (), post (Text (JDict [(''id'', JInt 4),
        (''error'', JStr (access_denied (''table_method'' @ ''.'' @ ''update'')))]))
        (new_manager True))"
    by blast
  from 1 2 3 4 show ?thesis by (simp add: access_denied_def)
qed

section \<open>Places where the code leaves its documented behaviour\<close>

text \<open>
  Claim C3 does not hold of the code. A \<^verbatim>\<open>view_method\<close> call on a view that is not
  registered posts "View is not initialized" and then goes on, since no \<^verbatim>\<open>return\<close>
  follows: the method is looked up on \<^verbatim>\<open>None\<close>, and a second error response for the
  same id is posted.
\<close>

theorem unresolved_view_proceeds:
  "process quiet_runtime (JDict unknown_view_request) None (new_manager False) =
     (Inr (), (new_manager False)\<lparr>posted :=
        [Text (JDict (make_error_message (JInt 1) ''View is not initialized'')),
         Text (JDict (make_error_message (JInt 1)
           (exn_str (no_attribute ''NoneType'' ''schema''))))]\<rparr>)"
  by code_simp

text \<open>
  Claim C4 does not hold of the code. \<^verbatim>\<open>_message_to_json\<close> catches \<^verbatim>\<open>ValueError\<close>
  only, so the \<^verbatim>\<open>TypeError\<close> that \<^verbatim>\<open>json.dumps\<close> raises on a result holding bytes
  leaves the encoder, against its docstring.
\<close>

theorem encoder_raises_type_error:
  "message_to_json (JInt 1) (make_message (JInt 1) (JBytes [0]))
     = Inl (Exn TypeError ''Object of type bytes is not JSON serializable'')"
  by code_simp

text \<open>
  Claim C5 does not hold of the code for \<^verbatim>\<open>schema\<close>. The dictionary
  \<^verbatim>\<open>{"as_string": True}\<close> reaches the last branch, which calls with \<^verbatim>\<open>*args\<close>: the
  engine gets the one positional argument \<^verbatim>\<open>"as_string"\<close>, the key, and no keyword.
\<close>

theorem schema_called_positionally:
  "trace (snd (process quiet_runtime (JDict schema_request) None with_table_and_view))
     = trace with_table_and_view @ [Method (TableObj 0) ''schema'' [JStr ''as_string''] []]"
  by code_simp

text \<open>
  Claim C9 does not hold of the code for a callback id that is falsy. The subscription
  with \<^verbatim>\<open>callback_id\<close> 0 calls \<^verbatim>\<open>on_update\<close> on the view, and no record is stored:
  the registering branch tests \<^verbatim>\<open>if callback_id:\<close>, while the removing branch tests
  \<^verbatim>\<open>callback_id is not None\<close>.
\<close>

theorem falsy_callback_id_not_stored:
  "callback_cache (snd (process quiet_runtime (JDict subscribe_request) (Some ''c1'')
      with_table_and_view)) = [] \<and>
   trace (snd (process quiet_runtime (JDict subscribe_request) (Some ''c1'')
      with_table_and_view)) = trace with_table_and_view @
        [Subscribe (ViewObj 1) ''on_update'' (Callback subscribe_request)
           [(''mode'', JStr ''none'')]]"
  by code_simp

section \<open>Arguments of update and remove\<close>

text \<open>
  Claim C6. A call of \<^verbatim>\<open>update\<close> or \<^verbatim>\<open>remove\<close> that is no subscription, on a
  registered table or view and with a first argument, makes exactly one engine call:
  that method, with the first element of \<^verbatim>\<open>args\<close> as the only positional argument,
  and as keywords the second element when it is an object. A second element that is no
  object is ignored: the call is made, with no keywords.
\<close>

theorem update_remove_arguments:
  assumes "subscript msg ''cmd'' = Inr cmd" and "subscript msg ''name'' = Inr name"
    and "hashable name" and "registered st cmd name = Some h" and "engine_object h"
    and "dict_get msg ''subscribe'' (JBool False) \<noteq> JBool True"
    and "subscript msg ''method'' = Inr (JStr m)" and "m = ''update'' \<or> m = ''remove''"
    and "dict_get msg ''args'' (JList []) = JList (data # rest)"
  shows "trace (snd (process_method_call rt msg client_id st)) =
           trace st @ [Method h m [data] (keyword_options rest)]"
proof -
  let ?c = "Method h m [data] (keyword_options rest)"
  let ?st1 = "st\<lparr>trace := trace st @ [?c]\<rparr>"
  have pmc: "process_method_call rt msg client_id st =
      catch (and_then (engine_call rt ?c) (deliver msg m))
        (\<lambda>error. post_error msg (exn_str error)) st"
    by (simp add: method_call_registered[OF assms(1-4)] body_update[OF assms(6-9,5)])
  have "trace (snd (catch (and_then (engine_call rt ?c) (deliver msg m))
        (\<lambda>error. post_error msg (exn_str error)) st)) = trace ?st1"
  proof (cases "engine rt (trace st) ?c")
    case (Inl e)
    then have "catch (and_then (engine_call rt ?c) (deliver msg m))
        (\<lambda>error. post_error msg (exn_str error)) st = post_error msg (exn_str e) ?st1"
      by (simp add: catch_def and_then_def engine_call_def)
    then show ?thesis by (simp add: posts_only_trace)
  next
    case (Inr v)
    then have "catch (and_then (engine_call rt ?c) (deliver msg m))
        (\<lambda>error. post_error msg (exn_str error)) st =
        catch (deliver msg m v) (\<lambda>error. post_error msg (exn_str error)) ?st1"
      by (simp add: catch_def and_then_def engine_call_def)
    moreover have "posts_only (catch (deliver msg m v) (\<lambda>error. post_error msg (exn_str error)))"
      by (intro posts_only_catch) simp_all
    ultimately show ?thesis by (simp add: posts_only_trace)
  qed
  with pmc show ?thesis by simp
qed

text \<open>
  Witness for C6: the update of table \<^verbatim>\<open>t\<close> with the arguments
  \<^verbatim>\<open>[[{"a": 1}], 7]\<close>; the 7 is ignored.
\<close>

theorem update_remove_arguments_witness:
  "trace (snd (process_method_call quiet_runtime update_request None with_table_and_view)) =
     trace with_table_and_view @
       [Method (TableObj 0) ''update'' [JList [JDict [(''a'', JInt 1)]]] []]"
proof -
  have h: "subscript update_request ''cmd'' = Inr (JStr ''table_method'')"
    "subscript update_request ''name'' = Inr (JStr ''t'')"
    "hashable (JStr ''t'')"
    "registered with_table_and_view (JStr ''table_method'') (JStr ''t'') = Some (TableObj 0)"
    "engine_object (TableObj 0)"
    "dict_get update_request ''subscribe'' (JBool False) \<noteq> JBool True"
    "subscript update_request ''method'' = Inr (JStr ''update'')"
    "''update'' = ''update'' \<or> ''update'' = ''remove''"
    "dict_get update_request ''args'' (JList []) = JList [JList [JDict [(''a'', JInt 1)]], JInt 7]"
    by code_simp+
  from update_remove_arguments[OF h, of quiet_runtime None] show ?thesis by simp
qed

section \<open>The binary transfer\<close>



section \<open>The table registry\<close>

text \<open>
  Claim C8. Whatever is processed, every name of the table registry stays registered,
  and no engine call that is made invokes \<^verbatim>\<open>delete\<close> on an entry of the table
  registry. A message whose command is not \<^verbatim>\<open>table\<close> leaves the table registry as
  it is, so a \<^verbatim>\<open>table_method\<close> call of \<^verbatim>\<open>delete\<close> deletes nothing; and the view
  registry loses a name only to a \<^verbatim>\<open>view_method\<close> call of \<^verbatim>\<open>delete\<close>.
\<close>

theorem tables_never_deleted:
  "fst ` set (tables st) \<subseteq> fst ` set (tables (snd (process rt raw client_id st))) \<and>
   list_all (\<lambda>c. \<not> deletes_table c)
     (drop (length (trace st)) (trace (snd (process rt raw client_id st)))) \<and>
   (subscript msg ''cmd'' \<noteq> Inr (JStr ''table'') \<longrightarrow>
      tables (snd (process_message rt msg client_id st)) = tables st) \<and>
   (\<not> (subscript msg ''cmd'' = Inr (JStr ''view_method'') \<and>
       subscript msg ''method'' = Inr (JStr ''delete'')) \<longrightarrow>
      fst ` set (views st) \<subseteq> fst ` set (views (snd (process_message rt msg client_id st))))"
proof (intro conjI impI)
  have c: "changes True True st (snd (process rt raw client_id st))"
    using steady_process by (simp add: steady_def)
  then show "fst ` set (tables st) \<subseteq> fst ` set (tables (snd (process rt raw client_id st)))"
    by (simp add: changes_def)
  from c show "list_all (\<lambda>c. \<not> deletes_table c)
     (drop (length (trace st)) (trace (snd (process rt raw client_id st))))"
    by (rule changes_new_calls)
next
  assume "subscript msg ''cmd'' \<noteq> Inr (JStr ''table'')"
  then have "steady False True (process_message rt msg client_id)"
    by (intro steady_process_message) simp_all
  then show "tables (snd (process_message rt msg client_id st)) = tables st"
    by (simp add: steady_def changes_def)
next
  assume "\<not> (subscript msg ''cmd'' = Inr (JStr ''view_method'') \<and>
       subscript msg ''method'' = Inr (JStr ''delete''))"
  then have "steady True False (process_message rt msg client_id)"
    by (intro steady_process_message) auto
  then show "fst ` set (views st) \<subseteq> fst ` set (views (snd (process_message rt msg client_id st)))"
    by (simp add: steady_def changes_def)
qed

text \<open>
  Witness for C8: the \<^verbatim>\<open>table_method\<close> call of \<^verbatim>\<open>delete\<close> on table \<^verbatim>\<open>t\<close> leaves
  both registries as they were.
\<close>

theorem tables_never_deleted_witness:
  "tables (snd (process_message quiet_runtime delete_table_request None with_table_and_view))
     = tables with_table_and_view \<and>
   fst ` set (views with_table_and_view) \<subseteq>
     fst ` set (views (snd (process_message quiet_runtime delete_table_request None
       with_table_and_view)))"
proof -
  have h: "subscript delete_table_request ''cmd'' \<noteq> Inr (JStr ''table'')"
    "\<not> (subscript delete_table_request ''cmd'' = Inr (JStr ''view_method'') \<and>
        subscript delete_table_request ''method'' = Inr (JStr ''delete''))"
    by code_simp+
  from tables_never_deleted[where msg = delete_table_request and st = with_table_and_view
      and rt = quiet_runtime and client_id = None] h
  show ?thesis by blast
qed

section \<open>Responses to requests\<close>




section \<open>Method calls on a table that is not registered\<close>




end
